theory Spec2Isabelle
  imports Complex_Main "HOL-Library.Sublist"
begin

section \<open>Numbers\<close>

text \<open>
  Python floats are modelled as mathematical reals, so the arithmetic is exact.
  Python's \<open>round(x)\<close> rounds to the nearest integer and breaks ties towards the even
  neighbour; \<open>round(x, n)\<close> does the same at the n-th decimal.
\<close>

definition py_round :: "real \<Rightarrow> int" where
  "py_round x =
     (let f = \<lfloor>x\<rfloor>; d = x - of_int f
      in if d < 1/2 then f else if 1/2 < d then f + 1 else if even f then f else f + 1)"

definition py_round_nd :: "real \<Rightarrow> nat \<Rightarrow> real" where
  "py_round_nd x n = of_int (py_round (x * 10 ^ n)) / 10 ^ n"

section \<open>Configuration constants\<close>

definition SPREAD_STD :: real where "SPREAD_STD = 11.0"
definition KELLY_FRAC :: real where "KELLY_FRAC = 0.15"
definition MIN_EDGE :: real where "MIN_EDGE = 2.0"
definition MIN_COVER :: real where "MIN_COVER = 0.52"
definition MAX_BETS :: nat where "MAX_BETS = 5"

section \<open>The rating store\<close>

text \<open>
  A team record is the dictionary built by the loader from one row of the ratings file.
  Team names are strings of code points below 256.
\<close>

record team_rating =
  team :: string
  rank :: int
  conf :: string
  adj_o :: real
  adj_d :: real
  adj_t :: real

type_synonym teams = "string \<rightharpoonup> team_rating"

text \<open>\<open>str.lower\<close> and \<open>str.strip\<close> on code points below 256.\<close>

definition lower_char :: "char \<Rightarrow> char" where
  "lower_char c =
     (let n = (of_char c :: nat)
      in if (65 \<le> n \<and> n \<le> 90) \<or> (192 \<le> n \<and> n \<le> 214) \<or> (216 \<le> n \<and> n \<le> 222)
         then char_of (n + 32) else c)"

definition lower :: "string \<Rightarrow> string" where
  "lower s = map lower_char s"

definition is_space :: "char \<Rightarrow> bool" where
  "is_space c = ((of_char c :: nat) \<in> {9, 10, 11, 12, 13, 28, 29, 30, 31, 32, 133, 160})"

definition strip :: "string \<Rightarrow> string" where
  "strip s = rev (dropWhile is_space (rev (dropWhile is_space s)))"

text \<open>
  \<open>load\<close> stores every row under its lower-cased name (a later row replaces an earlier
  one with the same key); \<open>get\<close> looks up \<open>name.lower().strip()\<close>.
\<close>

definition load :: "team_rating list \<Rightarrow> teams" where
  "load rows = fold (\<lambda>r ts. ts(lower (team r) \<mapsto> r)) rows Map.empty"

definition get :: "teams \<Rightarrow> string \<Rightarrow> team_rating option" where
  "get ts name = ts (strip (lower name))"

section \<open>Fixed tables\<close>

definition CONFERENCE_HCA :: "(string \<times> real) list" where
  "CONFERENCE_HCA =
     [(''B12'', 4.0), (''B10'', 4.0), (''SEC'', 4.0), (''ACC'', 3.8), (''BE'', 3.8),
      (''MWC'', 3.8), (''WCC'', 3.5), (''A10'', 3.5), (''default'', 3.5)]"

definition ELITE_VENUES :: "(string \<times> real) list" where
  "ELITE_VENUES =
     [(''Duke'', 1.2), (''Kansas'', 1.2), (''Kentucky'', 1.0), (''Gonzaga'', 1.0),
      (''Purdue'', 1.0), (''Auburn'', 1.0)]"

text \<open>\<open>CONFERENCE_HCA.get(home['conf'],3.5)\<close>\<close>

definition hca_of :: "team_rating \<Rightarrow> real" where
  "hca_of h = (case map_of CONFERENCE_HCA (conf h) of Some v \<Rightarrow> v | None \<Rightarrow> 3.5)"

section \<open>The baseline margin\<close>

definition base_margin :: "team_rating \<Rightarrow> team_rating \<Rightarrow> real" where
  "base_margin h a =
     (let pace = (adj_t h * adj_t a) / 67.5;
          h_eff = (adj_o h * adj_d a) / 100;
          a_eff = (adj_o a * adj_d h) / 100;
          hca = hca_of h;
          h_pts = (h_eff * pace) / 100 + hca / 2;
          a_pts = (a_eff * pace) / 100 - hca / 2
      in h_pts - a_pts)"

section \<open>Staking: the Kelly fraction\<close>

text \<open>
  \<open>kelly=max(0,((0.909*cover)-(1-cover))/0.909*KELLY_FRAC) if cover>MIN_COVER else 0\<close>
  in the v6 predictor; the v7 predictor multiplies the clamped value by \<open>kelly_mult\<close>.
\<close>

definition kelly_v6 :: "real \<Rightarrow> real" where
  "kelly_v6 cover =
     (if cover > MIN_COVER then max 0 (((0.909 * cover) - (1 - cover)) / 0.909 * KELLY_FRAC) else 0)"

definition kelly_v7 :: "real \<Rightarrow> real \<Rightarrow> real" where
  "kelly_v7 cover kelly_mult =
     (if cover > MIN_COVER
      then max 0 (((0.909 * cover) - (1 - cover)) / 0.909 * KELLY_FRAC) * kelly_mult else 0)"


section \<open>Stake sizes\<close>

text \<open>
  v6 sizes a bet inside the loop of \<open>main\<close>, against the running total:
  \<open>amt=min(BANKROLL*b.kelly,BANKROLL*0.03,BANKROLL*0.1-total); amt=round(amt/5)*5\<close>.
  v7 sizes it inside \<open>predict\<close>:
  \<open>stake=min(bankroll*kelly,bankroll*0.03,bankroll*0.10); stake=round(stake/5)*5\<close>.
\<close>

definition amt_v6 :: "real \<Rightarrow> real \<Rightarrow> int \<Rightarrow> int" where
  "amt_v6 bankroll k tot =
     py_round (min (bankroll * k) (min (bankroll * 0.03) (bankroll * 0.1 - of_int tot)) / 5) * 5"

definition stake_v7 :: "real \<Rightarrow> real \<Rightarrow> int" where
  "stake_v7 bankroll k =
     py_round (min (bankroll * k) (min (bankroll * 0.03) (bankroll * 0.10)) / 5) * 5"

section \<open>Predictions\<close>

text \<open>
  The factor list of a prediction holds formatted strings. Each constructor stands for
  one of the format strings of the source and carries the values it prints:
  \<open>Elite_venue\<close> for "Elite venue +..", \<open>Injuries\<close> for "{team} injuries: -.." (v6 ends it
  with " pts"), \<open>Detail\<close> for the indented line of one player, \<open>Sharp_your_way\<close> and
  \<open>Line_against\<close> for the two line-movement messages. \<open>Note\<close> is a string that a
  provider hands over ready-made.
\<close>

datatype factor =
    Elite_venue real
  | Injuries string real
  | Detail string
  | Note string
  | Sharp_your_way real
  | Line_against real

record pred =
  home :: string
  away :: string
  mkt :: real
  mdl :: real
  edge :: real
  bet_team :: string
  bet_line :: real
  cover :: real
  kelly :: real
  winner :: string
  margin :: real
  factors :: "factor list"

record pred_v7 = pred +
  home_rank :: int
  away_rank :: int
  stake :: int

text \<open>
  The optional collaborators of a predictor. The modules that implement them are not
  part of the two pipeline files, so each one is a function handed to the predictor,
  or \<open>None\<close> when the module is absent:
  \<open>enhanced_inj\<close> is \<open>get_injury_impact\<close> (impact in points, affected players),
  \<open>rest\<close> is \<open>get_rest_adjustment\<close> (points, reason; the empty reason is falsy),
  \<open>matchups\<close> is \<open>get_all_adjustments\<close>, \<open>travel\<close> is \<open>get_travel_adjustment\<close>
  (present iff \<open>HAS_TRAVEL\<close>), and \<open>line_tracker\<close> is \<open>get_line_movement\<close>, giving
  the \<open>'movement'\<close> entry of the game when there is one.
\<close>

record predictor =
  loader :: teams
  enhanced_inj :: "(string \<Rightarrow> real \<times> string list) option"
  rest :: "(string \<Rightarrow> string \<Rightarrow> real \<times> string) option"

record predictor_v7 = predictor +
  matchups :: "(string \<Rightarrow> string \<Rightarrow> real \<times> string list) option"
  travel :: "(string \<Rightarrow> string \<Rightarrow> int \<Rightarrow> real \<times> string) option"
  line_tracker :: "(string \<Rightarrow> real option) option"

text \<open>The distribution function \<open>stats.norm.cdf(x, loc, scale)\<close> is a parameter.\<close>

type_synonym cdf = "real \<Rightarrow> real \<Rightarrow> real \<Rightarrow> real"

subsection \<open>Adjustments to the home margin\<close>

text \<open>Every step takes the margin and the factor list so far and returns both.\<close>

definition elite_v6 :: "team_rating \<Rightarrow> real \<times> factor list \<Rightarrow> real \<times> factor list" where
  "elite_v6 h = (\<lambda>(h_margin, fs).
     case map_of ELITE_VENUES (team h) of
       Some bonus \<Rightarrow> (h_margin + bonus, fs)
     | None \<Rightarrow> (h_margin, fs))"

definition elite_v7 :: "team_rating \<Rightarrow> real \<times> factor list \<Rightarrow> real \<times> factor list" where
  "elite_v7 h = (\<lambda>(h_margin, fs).
     case map_of ELITE_VENUES (team h) of
       Some bonus \<Rightarrow> (h_margin + bonus, fs @ [Elite_venue bonus])
     | None \<Rightarrow> (h_margin, fs))"

definition injuries_v6 ::
  "(string \<Rightarrow> real \<times> string list) option \<Rightarrow> team_rating \<Rightarrow> team_rating \<Rightarrow>
   real \<times> factor list \<Rightarrow> real \<times> factor list" where
  "injuries_v6 ei h a = (\<lambda>(h_margin, fs).
     case ei of
       None \<Rightarrow> (h_margin, fs)
     | Some get_injury_impact \<Rightarrow>
         (let (hi, hp) = get_injury_impact (team h);
              (ai, ap) = get_injury_impact (team a);
              adj = (ai - hi) * 0.7
          in if \<bar>adj\<bar> > 0.5
             then (h_margin + adj,
                   fs @ (if hi > 1 then [Injuries (team h) hi] else []) @ map Detail (take 2 hp)
                      @ (if ai > 1 then [Injuries (team a) ai] else []) @ map Detail (take 2 ap))
             else (h_margin, fs)))"

definition injuries_v7 ::
  "(string \<Rightarrow> real \<times> string list) option \<Rightarrow> team_rating \<Rightarrow> team_rating \<Rightarrow>
   real \<times> factor list \<Rightarrow> real \<times> factor list" where
  "injuries_v7 ei h a = (\<lambda>(h_margin, fs).
     case ei of
       None \<Rightarrow> (h_margin, fs)
     | Some get_injury_impact \<Rightarrow>
         (let (hi, hp) = get_injury_impact (team h);
              (ai, ap) = get_injury_impact (team a);
              adj = (ai - hi) * 0.7
          in if \<bar>adj\<bar> > 0.5
             then (h_margin + adj,
                   fs @ (if hi > 1 then Injuries (team h) hi # map Detail (take 2 hp) else [])
                      @ (if ai > 1 then Injuries (team a) ai # map Detail (take 2 ap) else []))
             else (h_margin, fs)))"

definition rest_adj ::
  "(string \<Rightarrow> string \<Rightarrow> real \<times> string) option \<Rightarrow> team_rating \<Rightarrow> team_rating \<Rightarrow>
   real \<times> factor list \<Rightarrow> real \<times> factor list" where
  "rest_adj r h a = (\<lambda>(h_margin, fs).
     case r of
       None \<Rightarrow> (h_margin, fs)
     | Some get_rest_adjustment \<Rightarrow>
         (let (radj, reason) = get_rest_adjustment (team h) (team a)
          in if \<bar>radj\<bar> > 0.3
             then (h_margin + radj, if reason \<noteq> [] then fs @ [Note reason] else fs)
             else (h_margin, fs)))"

definition matchup_adj ::
  "(string \<Rightarrow> string \<Rightarrow> real \<times> string list) option \<Rightarrow> team_rating \<Rightarrow> team_rating \<Rightarrow>
   real \<times> factor list \<Rightarrow> real \<times> factor list" where
  "matchup_adj m h a = (\<lambda>(h_margin, fs).
     case m of
       None \<Rightarrow> (h_margin, fs)
     | Some get_all_adjustments \<Rightarrow>
         (let (madj, mfactors) = get_all_adjustments (team h) (team a)
          in if \<bar>madj\<bar> > 0.3 then (h_margin + madj, fs @ map Note mfactors)
             else (h_margin, fs)))"

definition travel_adj ::
  "(string \<Rightarrow> string \<Rightarrow> int \<Rightarrow> real \<times> string) option \<Rightarrow> team_rating \<Rightarrow> team_rating \<Rightarrow>
   int \<Rightarrow> real \<times> factor list \<Rightarrow> real \<times> factor list" where
  "travel_adj t h a game_hour_et = (\<lambda>(h_margin, fs).
     case t of
       None \<Rightarrow> (h_margin, fs)
     | Some get_travel_adjustment \<Rightarrow>
         (let (tadj, treason) = get_travel_adjustment (team h) (team a) game_hour_et
          in if \<bar>tadj\<bar> > 0.3
             then (h_margin + tadj, if treason \<noteq> [] then fs @ [Note treason] else fs)
             else (h_margin, fs)))"

text \<open>The margin and the factors just before \<open>mdl=-h_margin\<close>.\<close>

definition adjusted_v6 :: "predictor \<Rightarrow> team_rating \<Rightarrow> team_rating \<Rightarrow> real \<times> factor list" where
  "adjusted_v6 P h a =
     rest_adj (rest P) h a (injuries_v6 (enhanced_inj P) h a (elite_v6 h (base_margin h a, [])))"

definition adjusted_v7 ::
  "predictor_v7 \<Rightarrow> team_rating \<Rightarrow> team_rating \<Rightarrow> int \<Rightarrow> real \<times> factor list" where
  "adjusted_v7 P h a game_hour_et =
     travel_adj (travel P) h a game_hour_et
       (matchup_adj (matchups P) h a
         (rest_adj (rest P) h a
           (injuries_v7 (enhanced_inj P) h a (elite_v7 h (base_margin h a, [])))))"

subsection \<open>Edge, side and cover probability\<close>

text \<open>
  \<open>if mdl<mkt_spread: bet_team,bet_line=home['team'],mkt_spread\<close>,
  \<open>else: bet_team,bet_line=away['team'],-mkt_spread\<close>.
\<close>

definition bet_side :: "team_rating \<Rightarrow> team_rating \<Rightarrow> real \<Rightarrow> real \<Rightarrow> string \<times> real" where
  "bet_side h a model mkt_spread =
     (if model < mkt_spread then (team h, mkt_spread) else (team a, - mkt_spread))"

text \<open>
  \<open>exp,mkt=-mdl,-mkt_spread\<close>, then the upper tail if \<open>bet_team==home['team']\<close> and the
  lower tail otherwise.
\<close>

definition cover_prob :: "cdf \<Rightarrow> team_rating \<Rightarrow> string \<Rightarrow> real \<Rightarrow> real \<Rightarrow> real" where
  "cover_prob F h bt model mkt_spread =
     (let ex = - model; mk = - mkt_spread
      in if bt = team h then 1 - F mk ex SPREAD_STD else F mk ex SPREAD_STD)"

subsection \<open>The v6 predictor\<close>

definition predict_v6 :: "cdf \<Rightarrow> predictor \<Rightarrow> string \<Rightarrow> string \<Rightarrow> real \<Rightarrow> pred option" where
  "predict_v6 F P home_name away_name mkt_spread =
     (case get (loader P) home_name of
        None \<Rightarrow> None
      | Some h \<Rightarrow>
         (case get (loader P) away_name of
            None \<Rightarrow> None
          | Some a \<Rightarrow>
             (let (h_margin, fs) = adjusted_v6 P h a;
                  model = - h_margin;
                  win = (if h_margin > 0 then team h else team a);
                  margin_abs = \<bar>h_margin\<bar>;
                  e = \<bar>mkt_spread - model\<bar>;
                  (bt, bl) = bet_side h a model mkt_spread;
                  c = cover_prob F h bt model mkt_spread;
                  k = kelly_v6 c
              in Some \<lparr>home = team h, away = team a, mkt = mkt_spread,
                        mdl = py_round_nd model 1, edge = py_round_nd e 1,
                        bet_team = bt, bet_line = py_round_nd bl 1,
                        cover = py_round_nd c 4, kelly = py_round_nd k 4,
                        winner = win, margin = py_round_nd margin_abs 1, factors = fs\<rparr>)))"

subsection \<open>The v7 predictor\<close>

datatype side = Home_side | Away_side

definition line_move ::
  "(string \<Rightarrow> real option) option \<Rightarrow> string \<Rightarrow> string \<Rightarrow> team_rating \<Rightarrow> string \<Rightarrow>
   factor list \<Rightarrow> real \<times> factor list" where
  "line_move lt home_name away_name h bt fs =
     (case lt of
        None \<Rightarrow> (1.0, fs)
      | Some get_line_movement \<Rightarrow>
         (case get_line_movement (away_name @ '' @ '' @ home_name) of
            None \<Rightarrow> (1.0, fs)
          | Some move \<Rightarrow>
             if \<bar>move\<bar> > 1
             then (let your_side = (if bt = team h then Home_side else Away_side)
                   in if (your_side = Home_side \<and> move < - 1) \<or> (your_side = Away_side \<and> move > 1)
                      then (1.15, fs @ [Sharp_your_way move])
                      else if (your_side = Home_side \<and> move > 1) \<or> (your_side = Away_side \<and> move < - 1)
                      then (0.85, fs @ [Line_against move])
                      else (1.0, fs))
             else (1.0, fs)))"

definition predict_v7 ::
  "cdf \<Rightarrow> predictor_v7 \<Rightarrow> string \<Rightarrow> string \<Rightarrow> real \<Rightarrow> int \<Rightarrow> real \<Rightarrow> pred_v7 option" where
  "predict_v7 F P home_name away_name mkt_spread game_hour_et bankroll =
     (case get (loader P) home_name of
        None \<Rightarrow> None
      | Some h \<Rightarrow>
         (case get (loader P) away_name of
            None \<Rightarrow> None
          | Some a \<Rightarrow>
             (let (h_margin, fs) = adjusted_v7 P h a game_hour_et;
                  model = - h_margin;
                  win = (if h_margin > 0 then team h else team a);
                  margin_abs = \<bar>h_margin\<bar>;
                  e = \<bar>mkt_spread - model\<bar>;
                  (bt, bl) = bet_side h a model mkt_spread;
                  c = cover_prob F h bt model mkt_spread;
                  (kelly_mult, fs') = line_move (line_tracker P) home_name away_name h bt fs;
                  k = kelly_v7 c kelly_mult;
                  st = stake_v7 bankroll k
              in Some \<lparr>home = team h, away = team a, mkt = mkt_spread,
                        mdl = py_round_nd model 1, edge = py_round_nd e 1,
                        bet_team = bt, bet_line = py_round_nd bl 1,
                        cover = py_round_nd c 4, kelly = py_round_nd k 4,
                        winner = win, margin = py_round_nd margin_abs 1, factors = fs',
                        home_rank = rank h, away_rank = rank a, stake = st\<rparr>)))"

section \<open>Selection and staking in \<open>main\<close>\<close>

text \<open>A game of the odds feed: the dictionary with keys home, away, spread, game_hour_et.\<close>

record game =
  home_name :: string
  away_name :: string
  spread :: real
  game_hour_et :: int

text \<open>
  \<open>preds=[pred.predict(...) for g in api.games]; preds=[x for x in preds if x]\<close>:
  one prediction per game whose teams are both rated, in the order of the games.
\<close>

definition predictions_v6 :: "cdf \<Rightarrow> predictor \<Rightarrow> game list \<Rightarrow> pred list" where
  "predictions_v6 F P games =
     List.map_filter (\<lambda>g. predict_v6 F P (home_name g) (away_name g) (spread g)) games"

definition predictions_v7 :: "cdf \<Rightarrow> predictor_v7 \<Rightarrow> real \<Rightarrow> game list \<Rightarrow> pred_v7 list" where
  "predictions_v7 F P bankroll games =
     List.map_filter
       (\<lambda>g. predict_v7 F P (home_name g) (away_name g) (spread g) (game_hour_et g) bankroll) games"

text \<open>
  \<open>preds.sort(key=lambda x:x.edge,reverse=True)\<close> is a stable sort: predictions with
  equal edge keep their order.
\<close>

definition sort_by_edge :: "('a pred_scheme) list \<Rightarrow> ('a pred_scheme) list" where
  "sort_by_edge preds = sort_key (\<lambda>x. - edge x) preds"

definition bets_v6 :: "pred list \<Rightarrow> pred list" where
  "bets_v6 preds =
     take MAX_BETS (filter (\<lambda>x. edge x \<ge> MIN_EDGE \<and> cover x \<ge> MIN_COVER) (sort_by_edge preds))"

definition bets_v7 :: "pred_v7 list \<Rightarrow> pred_v7 list" where
  "bets_v7 preds =
     take MAX_BETS
       (filter (\<lambda>x. edge x \<ge> MIN_EDGE \<and> cover x \<ge> MIN_COVER \<and> stake x \<ge> 20) (sort_by_edge preds))"

text \<open>
  The staking loop of v6. A bet whose amount is below 20 is passed over
  (\<open>continue\<close>); the others are printed with their stake, which is added to the total.
\<close>

fun place_v6 :: "real \<Rightarrow> int \<Rightarrow> pred list \<Rightarrow> (pred \<times> int) list" where
  "place_v6 bankroll tot [] = []"
| "place_v6 bankroll tot (b # bs) =
     (let amt = amt_v6 bankroll (kelly b) tot
      in if amt < 20 then place_v6 bankroll tot bs
         else (b, amt) # place_v6 bankroll (tot + amt) bs)"

text \<open>
  What \<open>main\<close> reports: v6 prints the staked bets, the number \<open>len(bets)\<close> and the total
  stake; v7 prints every selected bet with the stake computed by the predictor.
\<close>

definition staked_v6 :: "cdf \<Rightarrow> predictor \<Rightarrow> real \<Rightarrow> game list \<Rightarrow> (pred \<times> int) list" where
  "staked_v6 F P bankroll games = place_v6 bankroll 0 (bets_v6 (predictions_v6 F P games))"

definition total_v6 :: "(pred \<times> int) list \<Rightarrow> int" where
  "total_v6 placed = sum_list (map snd placed)"

definition main_v7 :: "cdf \<Rightarrow> predictor_v7 \<Rightarrow> real \<Rightarrow> game list \<Rightarrow> pred_v7 list" where
  "main_v7 F P bankroll games = bets_v7 (predictions_v7 F P bankroll games)"

definition total_v7 :: "pred_v7 list \<Rightarrow> int" where
  "total_v7 bets = sum_list (map stake bets)"


section \<open>Notions used to state the claims\<close>

text \<open>The home margin that a predictor arrives at, before \<open>mdl=-h_margin\<close>.\<close>

definition home_margin_v6 :: "predictor \<Rightarrow> team_rating \<Rightarrow> team_rating \<Rightarrow> real" where
  "home_margin_v6 P h a = fst (adjusted_v6 P h a)"

definition home_margin_v7 :: "predictor_v7 \<Rightarrow> team_rating \<Rightarrow> team_rating \<Rightarrow> int \<Rightarrow> real" where
  "home_margin_v7 P h a hour_et = fst (adjusted_v7 P h a hour_et)"

text \<open>
  The specification's words for the edge engine: home is recommended when the model
  spread is below the market spread, away otherwise; the cover probability is the upper
  tail of the margin distribution at the market threshold for home, the lower tail for away.
\<close>

definition recommended_side :: "real \<Rightarrow> real \<Rightarrow> side" where
  "recommended_side model_spread market_spread =
     (if model_spread < market_spread then Home_side else Away_side)"

definition gaussian_tail :: "cdf \<Rightarrow> side \<Rightarrow> real \<Rightarrow> real \<Rightarrow> real" where
  "gaussian_tail F s mean threshold =
     (case s of Home_side \<Rightarrow> 1 - F threshold mean SPREAD_STD
              | Away_side \<Rightarrow> F threshold mean SPREAD_STD)"

text \<open>
  The bonus of the home venue (0 outside the table), and what the two teams of a matchup
  get together for playing at home: both home-court advantages and both venue bonuses.
\<close>

definition elite_bonus :: "team_rating \<Rightarrow> real" where
  "elite_bonus h = (case map_of ELITE_VENUES (team h) of Some bonus \<Rightarrow> bonus | None \<Rightarrow> 0)"

definition home_court_total :: "team_rating \<Rightarrow> team_rating \<Rightarrow> real" where
  "home_court_total h a = hca_of h + hca_of a + elite_bonus h + elite_bonus a"

section \<open>The normal distribution function\<close>

text \<open>
  \<open>stats.norm.cdf(x, loc, scale)\<close> is the distribution function of the normal law with
  mean \<open>loc\<close> and standard deviation \<open>scale\<close>. The integral of \<open>exp (- t\<^sup>2 / 2)\<close>
  from 0 to z is written as its power series, \<open>z\<close> times a series in \<open>z\<^sup>2\<close>.
\<close>

definition gauss_coeff :: "nat \<Rightarrow> real" where
  "gauss_coeff k = (- 1/2) ^ k / (fact k * (2 * of_nat k + 1))"

definition gauss_series :: "real \<Rightarrow> real" where
  "gauss_series w = (\<Sum>k. gauss_coeff k * w ^ k)"

definition gauss_int :: "real \<Rightarrow> real" where
  "gauss_int z = z * gauss_series (z * z)"

definition std_norm_cdf :: "real \<Rightarrow> real" where
  "std_norm_cdf z = 1/2 + gauss_int z / sqrt (2 * pi)"

definition norm_cdf :: cdf where
  "norm_cdf x loc scale = std_norm_cdf ((x - loc) / scale)"

text \<open>
  What the pipeline needs of a distribution function of a symmetric law at scale
  \<open>SPREAD_STD\<close>: its values are probabilities, and the mean is the median.
\<close>

definition cdf_laws :: "cdf \<Rightarrow> bool" where
  "cdf_laws F \<longleftrightarrow>
     (\<forall>x m. 0 \<le> F x m SPREAD_STD \<and> F x m SPREAD_STD \<le> 1) \<and>
     (\<forall>x m. x \<le> m \<longrightarrow> F x m SPREAD_STD \<le> 1/2) \<and>
     (\<forall>x m. m \<le> x \<longrightarrow> 1/2 \<le> F x m SPREAD_STD)"

text \<open>The distribution function of the uniform law on \<open>[loc - 2 scale, loc + 2 scale]\<close>.\<close>

definition uniform_cdf :: cdf where
  "uniform_cdf x loc scale = max 0 (min 1 (1/2 + (x - loc) / (4 * scale)))"

section \<open>Sample data\<close>

text \<open>Evenly matched teams: between two of them the baseline margin is the home-court advantage.\<close>

definition rated :: "string \<Rightarrow> int \<Rightarrow> string \<Rightarrow> team_rating" where
  "rated name r c = \<lparr>team = name, rank = r, conf = c, adj_o = 115, adj_d = 95, adj_t = 67.5\<rparr>"

definition sample_rows :: "team_rating list" where
  "sample_rows =
     [rated ''Houston'' 1 ''B12'', rated ''Baylor'' 2 ''B12'', rated ''Iowa St.'' 3 ''B12'',
      rated ''Arizona'' 4 ''B12'', rated ''Kansas St.'' 5 ''B12'', rated ''TCU'' 6 ''B12'',
      rated ''BYU'' 7 ''B12'', rated ''Utah'' 8 ''B12'', rated ''UCF'' 9 ''B12'',
      rated ''Cincinnati'' 10 ''B12'', rated ''Duke'' 11 ''ACC'']"

definition sample_teams :: teams where
  "sample_teams = load sample_rows"

definition P6 :: predictor where
  "P6 = \<lparr>loader = sample_teams, enhanced_inj = None, rest = None\<rparr>"

definition P7 :: predictor_v7 where
  "P7 = \<lparr>loader = sample_teams, enhanced_inj = None, rest = None,
          matchups = None, travel = None, line_tracker = None\<rparr>"

definition fixture :: "string \<Rightarrow> string \<Rightarrow> real \<Rightarrow> game" where
  "fixture hn an sp = \<lparr>home_name = hn, away_name = an, spread = sp, game_hour_et = 19\<rparr>"

definition games5 :: "game list" where
  "games5 =
     [fixture ''Houston'' ''Baylor'' 1.5, fixture ''Iowa St.'' ''Arizona'' 1.5,
      fixture ''Kansas St.'' ''TCU'' 1.5, fixture ''BYU'' ''Utah'' 1.5,
      fixture ''UCF'' ''Cincinnati'' 1.5]"

definition games4 :: "game list" where
  "games4 = take 4 games5"

text \<open>
  Predictions as the selection stage receives them: a bet on the home team at market
  spread \<open>m\<close> with edge \<open>e\<close>, cover probability \<open>c\<close> and Kelly fraction \<open>k\<close>.
\<close>

definition home_pick :: "string \<Rightarrow> string \<Rightarrow> real \<Rightarrow> real \<Rightarrow> real \<Rightarrow> real \<Rightarrow> pred" where
  "home_pick hn an m e c k =
     \<lparr>home = hn, away = an, mkt = m, mdl = m - e, edge = e, bet_team = hn, bet_line = m,
      cover = c, kelly = k, winner = (if e - m > 0 then hn else an), margin = \<bar>e - m\<bar>,
      factors = []\<rparr>"

definition home_pick_v7 ::
  "string \<Rightarrow> string \<Rightarrow> real \<Rightarrow> real \<Rightarrow> real \<Rightarrow> real \<Rightarrow> int \<Rightarrow> pred_v7" where
  "home_pick_v7 hn an m e c k st =
     \<lparr>home = hn, away = an, mkt = m, mdl = m - e, edge = e, bet_team = hn, bet_line = m,
      cover = c, kelly = k, winner = (if e - m > 0 then hn else an), margin = \<bar>e - m\<bar>,
      factors = [], home_rank = 1, away_rank = 2, stake = st\<rparr>"

definition sample_preds :: "pred list" where
  "sample_preds =
     [home_pick ''Houston'' ''Baylor'' (- 3) 2.5 0.59 0.0212,
      home_pick ''Iowa St.'' ''Arizona'' 1 4.0 0.6419 0.0378,
      home_pick ''Kansas St.'' ''TCU'' 2 2.5 0.59 0.0212,
      home_pick ''BYU'' ''Utah'' 0 1.0 0.5362 0.0039]"

definition sample_preds_v7 :: "pred_v7 list" where
  "sample_preds_v7 =
     [home_pick_v7 ''Houston'' ''Baylor'' (- 3) 2.5 0.59 0.0212 210,
      home_pick_v7 ''Iowa St.'' ''Arizona'' 1 4.0 0.6419 0.0378 300,
      home_pick_v7 ''Kansas St.'' ''TCU'' 2 2.5 0.59 0.0212 210,
      home_pick_v7 ''BYU'' ''Utah'' 0 1.0 0.5362 0.0039 40]"

section \<open>Rounding\<close>

lemma py_round_bounds: "\<bar>of_int (py_round x) - x\<bar> \<le> 1/2"
  unfolding py_round_def Let_def by (auto simp: abs_if) linarith+

lemma py_round_eqI:
  assumes "of_int k - 1/2 < x" and "x < of_int k + 1/2"
  shows "py_round x = k"
proof -
  have "\<bar>of_int (py_round x) - x\<bar> \<le> 1/2" by (rule py_round_bounds)
  with assms have "of_int (py_round x) < (of_int k :: real) + 1" "(of_int k :: real) - 1 < of_int (py_round x)"
    by linarith+
  then have "py_round x < k + 1" "k - 1 < py_round x"
    by linarith+
  then show ?thesis by linarith
qed

lemma py_round_of_int [simp]: "py_round (of_int k) = k"
  by (rule py_round_eqI) simp_all

lemma py_round_mono: "x \<le> y \<Longrightarrow> py_round x \<le> py_round y"
proof (rule ccontr)
  assume xy: "x \<le> y" and "\<not> py_round x \<le> py_round y"
  then have gt: "py_round y + 1 \<le> py_round x" by simp
  have bx: "\<bar>of_int (py_round x) - x\<bar> \<le> 1/2" and by': "\<bar>of_int (py_round y) - y\<bar> \<le> 1/2"
    by (rule py_round_bounds)+
  from gt have g: "(of_int (py_round y) :: real) + 1 \<le> of_int (py_round x)"
    by linarith
  with bx by' xy have eq: "x = y" "of_int (py_round x) = x + 1/2" "of_int (py_round y) = y - 1/2"
    by linarith+
  then have "py_round x = py_round y" by simp
  with gt show False by simp
qed

section \<open>Facts about the Kelly fraction\<close>

lemma kelly_v6_is_v7: "kelly_v6 p = kelly_v7 p 1"
  by (simp add: kelly_v6_def kelly_v7_def)

lemma kelly_v7_below_break_even: "p \<le> 1000/1909 \<Longrightarrow> kelly_v7 p m = 0"
  by (simp add: kelly_v7_def MIN_COVER_def KELLY_FRAC_def max_def field_simps)

lemma kelly_v7_strict: "1000/1909 \<le> p \<Longrightarrow> p < q \<Longrightarrow> 0 < m \<Longrightarrow> kelly_v7 p m < kelly_v7 q m"
  by (simp add: kelly_v7_def MIN_COVER_def KELLY_FRAC_def max_def field_simps)

section \<open>Facts about the normal distribution function\<close>

lemma gauss_term_eq:
  "gauss_coeff k * w ^ k = ((- w / 2) ^ k /\<^sub>R fact k) / (2 * of_nat k + 1)"
  by (simp add: gauss_coeff_def power_divide power_mult_distrib field_simps flip: power_mult_distrib)

lemma summable_gauss: "summable (\<lambda>k. gauss_coeff k * w ^ k)"
proof (rule summable_comparison_test')
  show "summable (\<lambda>k. norm ((- w / 2) ^ k /\<^sub>R fact k))"
    by (rule summable_norm_exp)
next
  fix k :: nat
  have "norm (gauss_coeff k * w ^ k) = norm ((- w / 2) ^ k /\<^sub>R fact k) / (2 * of_nat k + 1)"
    unfolding gauss_term_eq by (simp add: abs_mult)
  also have "\<dots> \<le> norm ((- w / 2) ^ k /\<^sub>R fact k) / 1"
    by (rule divide_left_mono) simp_all
  finally show "norm (gauss_coeff k * w ^ k) \<le> norm ((- w / 2) ^ k /\<^sub>R fact k)" by simp
qed

lemma gauss_series_deriv:
  "(gauss_series has_field_derivative (\<Sum>k. diffs gauss_coeff k * w ^ k)) (at w)"
  unfolding gauss_series_def
  by (rule termdiffs_strong_converges_everywhere) (rule summable_gauss)

lemma gauss_series_ode:
  "gauss_series w + 2 * w * (\<Sum>k. diffs gauss_coeff k * w ^ k) = exp (- w / 2)"
proof -
  let ?e = "\<lambda>k. (- w / 2) ^ k /\<^sub>R fact k"
  let ?a = "\<lambda>k. gauss_coeff k * w ^ k"
  let ?f = "\<lambda>k. 2 * of_nat k * ?a k"
  have e: "?e sums exp (- w / 2)" by (rule exp_converges)
  have a: "?a sums gauss_series w"
    unfolding gauss_series_def by (rule summable_sums[OF summable_gauss])
  have split: "2 * of_nat k * (x / (2 * of_nat k + 1)) = x - x / (2 * of_nat k + 1)" for x :: real and k :: nat
  proof -
    have "0 \<le> real k" by simp
    then have "2 * real k + 1 \<noteq> 0" by linarith
    then show ?thesis by (simp add: field_simps)
  qed
  have fe: "?f k = ?e k - ?a k" for k
    unfolding gauss_term_eq by (rule split)
  have "?f sums (exp (- w / 2) - gauss_series w)"
    unfolding fe by (rule sums_diff[OF e a])
  then have "(\<lambda>k. ?f (Suc k)) sums (exp (- w / 2) - gauss_series w)"
    by (subst sums_Suc_iff) simp
  moreover have "(\<lambda>k. ?f (Suc k)) = (\<lambda>k. 2 * w * (diffs gauss_coeff k * w ^ k))"
    by (rule ext) (simp add: diffs_def algebra_simps)
  ultimately have s: "(\<lambda>k. 2 * w * (diffs gauss_coeff k * w ^ k)) sums (exp (- w / 2) - gauss_series w)"
    by (simp only:)
  have "summable (\<lambda>k. diffs gauss_coeff k * w ^ k)"
    by (rule termdiff_converges_all) (rule summable_gauss)
  then have "(\<lambda>k. 2 * w * (diffs gauss_coeff k * w ^ k)) sums (2 * w * (\<Sum>k. diffs gauss_coeff k * w ^ k))"
    by (intro sums_mult summable_sums)
  then have "2 * w * (\<Sum>k. diffs gauss_coeff k * w ^ k) = exp (- w / 2) - gauss_series w"
    using s by (rule sums_unique2)
  then show ?thesis by simp
qed

lemma gauss_int_deriv: "(gauss_int has_field_derivative exp (- (z * z) / 2)) (at z)"
proof -
  let ?d = "\<lambda>w. \<Sum>k. diffs gauss_coeff k * w ^ k"
  have sq: "((\<lambda>z. z * z) has_field_derivative (1 * z + 1 * z)) (at z)"
    by (rule DERIV_mult[OF DERIV_ident DERIV_ident])
  have inner: "((\<lambda>z. gauss_series (z * z)) has_field_derivative ?d (z * z) * (1 * z + 1 * z)) (at z)"
    by (rule DERIV_chain2[OF gauss_series_deriv sq])
  have "((\<lambda>z. z * gauss_series (z * z)) has_field_derivative
           (1 * gauss_series (z * z) + (?d (z * z) * (1 * z + 1 * z)) * z)) (at z)"
    by (rule DERIV_mult[OF DERIV_ident inner])
  moreover have "1 * gauss_series (z * z) + (?d (z * z) * (1 * z + 1 * z)) * z = exp (- (z * z) / 2)"
    using gauss_series_ode[of "z * z"] by (simp add: algebra_simps)
  ultimately show ?thesis
    unfolding gauss_int_def[abs_def] by simp
qed

lemma std_norm_cdf_deriv:
  "(std_norm_cdf has_field_derivative exp (- (z * z) / 2) / sqrt (2 * pi)) (at z)"
proof -
  have "((\<lambda>z. gauss_int z / sqrt (2 * pi)) has_field_derivative
          exp (- (z * z) / 2) / sqrt (2 * pi)) (at z)"
    by (rule DERIV_cdivide[OF gauss_int_deriv])
  from DERIV_add[OF DERIV_const[of "1/2"] this] show ?thesis
    unfolding std_norm_cdf_def[abs_def] by simp
qed

lemma std_norm_cdf_0: "std_norm_cdf 0 = 1/2"
  by (simp add: std_norm_cdf_def gauss_int_def)

lemma std_norm_cdf_strict_mono: "a < b \<Longrightarrow> std_norm_cdf a < std_norm_cdf b"
proof -
  assume ab: "a < b"
  have "\<exists>y. (std_norm_cdf has_real_derivative y) (at x) \<and> 0 < y" for x
    using std_norm_cdf_deriv[of x] by (intro exI conjI) (assumption, simp)
  then show ?thesis
    using DERIV_pos_imp_increasing[OF ab, of std_norm_cdf] by blast
qed

lemma gauss_int_odd: "gauss_int (- z) = - gauss_int z"
  by (simp add: gauss_int_def)

lemma std_norm_cdf_neg: "std_norm_cdf (- z) = 1 - std_norm_cdf z"
  by (simp add: std_norm_cdf_def gauss_int_odd)

lemma pi_ge_3: "3 \<le> pi"
proof -
  have "sin (pi / 6) \<le> pi / 6" by (rule sin_x_le_x) simp
  then show ?thesis by (simp add: sin_30)
qed

lemma sqrt_2pi_bounds: "12/5 < sqrt (2 * pi)" "sqrt (2 * pi) < 20/7"
proof -
  have "(12/5)\<^sup>2 < 2 * pi" using pi_ge_3 by (simp add: power2_eq_square)
  then show "12/5 < sqrt (2 * pi)" by (rule real_less_rsqrt)
  have "2 * pi < (20/7)\<^sup>2" using pi_less_4 by (simp add: power2_eq_square)
  then show "sqrt (2 * pi) < 20/7" by (intro real_less_lsqrt) simp_all
qed

lemma std_norm_cdf_upper:
  assumes "0 < z"
  shows "std_norm_cdf z < 1/2 + 5/12 * z"
proof -
  from MVT2[of 0 z std_norm_cdf "\<lambda>t. exp (- (t * t) / 2) / sqrt (2 * pi)"] assms std_norm_cdf_deriv
  obtain t where t: "std_norm_cdf z - std_norm_cdf 0 = (z - 0) * (exp (- (t * t) / 2) / sqrt (2 * pi))"
    by blast
  have "exp (- (t * t) / 2) \<le> 1" by simp
  then have "exp (- (t * t) / 2) / sqrt (2 * pi) \<le> 1 / sqrt (2 * pi)"
    by (intro divide_right_mono) simp_all
  also have "\<dots> < 1 / (12/5)"
    using sqrt_2pi_bounds(1) by (intro divide_strict_left_mono) simp_all
  finally have "exp (- (t * t) / 2) / sqrt (2 * pi) < 5/12" by simp
  then have "z * (exp (- (t * t) / 2) / sqrt (2 * pi)) < z * (5/12)"
    using assms by (intro mult_strict_left_mono)
  moreover have "std_norm_cdf z - 1/2 = z * (exp (- (t * t) / 2) / sqrt (2 * pi))"
    using t by (simp only: std_norm_cdf_0 diff_zero)
  ultimately show ?thesis by linarith
qed

lemma std_norm_cdf_lower:
  assumes "0 < z"
  shows "1/2 + 7/20 * (z * (1 - z * z / 2)) < std_norm_cdf z"
proof -
  from MVT2[of 0 z std_norm_cdf "\<lambda>t. exp (- (t * t) / 2) / sqrt (2 * pi)"] assms std_norm_cdf_deriv
  obtain t where t0: "0 < t" "t < z"
    and t: "std_norm_cdf z - std_norm_cdf 0 = (z - 0) * (exp (- (t * t) / 2) / sqrt (2 * pi))"
    by blast
  have "t * t \<le> z * z" using t0 by (intro mult_mono) simp_all
  then have "1 - z * z / 2 \<le> 1 + (- (t * t) / 2)" by simp
  also have "\<dots> \<le> exp (- (t * t) / 2)" by (rule exp_ge_add_one_self)
  finally have e: "1 - z * z / 2 \<le> exp (- (t * t) / 2)" .
  have pos: "0 < exp (- (t * t) / 2)" by simp
  have "7/20 * (1 - z * z / 2) \<le> 7/20 * exp (- (t * t) / 2)"
    using e by simp
  also have "\<dots> < exp (- (t * t) / 2) / sqrt (2 * pi)"
  proof -
    have "1 / (20/7) < 1 / sqrt (2 * pi)"
      using sqrt_2pi_bounds by (intro divide_strict_left_mono) simp_all
    then have "exp (- (t * t) / 2) * (1 / (20/7)) < exp (- (t * t) / 2) * (1 / sqrt (2 * pi))"
      using pos by (intro mult_strict_left_mono)
    then show ?thesis by simp
  qed
  finally have "z * (7/20 * (1 - z * z / 2)) < z * (exp (- (t * t) / 2) / sqrt (2 * pi))"
    using assms by (intro mult_strict_left_mono)
  moreover have "std_norm_cdf z - 1/2 = z * (exp (- (t * t) / 2) / sqrt (2 * pi))"
    using t by (simp only: std_norm_cdf_0 diff_zero)
  moreover have "7/20 * (z * (1 - z * z / 2)) = z * (7/20 * (1 - z * z / 2))"
    by simp
  ultimately show ?thesis by linarith
qed

lemma norm_cdf_median: "norm_cdf m m s = 1/2"
  by (simp add: norm_cdf_def std_norm_cdf_0)

lemma norm_cdf_below: "0 < s \<Longrightarrow> x < m \<Longrightarrow> norm_cdf x m s < 1/2"
  using std_norm_cdf_strict_mono[of "(x - m) / s" 0]
  by (simp add: norm_cdf_def std_norm_cdf_0 divide_neg_pos)

lemma norm_cdf_above: "0 < s \<Longrightarrow> m < x \<Longrightarrow> 1/2 < norm_cdf x m s"
  using std_norm_cdf_strict_mono[of 0 "(x - m) / s"]
  by (simp add: norm_cdf_def std_norm_cdf_0)

section \<open>Facts about the predictors and the sample data\<close>

lemma predict_v6_None_iff:
  "predict_v6 F P hn an m = None \<longleftrightarrow> get (loader P) hn = None \<or> get (loader P) an = None"
  by (auto simp: predict_v6_def Let_def split: option.splits prod.splits)

lemma predict_v7_None_iff:
  "predict_v7 F P hn an m gh B = None \<longleftrightarrow> get (loader P) hn = None \<or> get (loader P) an = None"
  by (auto simp: predict_v7_def Let_def split: option.splits prod.splits)

lemma map_filter_skip:
  "f x = None \<Longrightarrow> List.map_filter f (xs @ x # ys) = List.map_filter f (xs @ ys)"
  by (simp add: List.map_filter_def)

lemma sample_get:
  "get sample_teams ''Houston'' = Some (rated ''Houston'' 1 ''B12'')"
  "get sample_teams ''Baylor'' = Some (rated ''Baylor'' 2 ''B12'')"
  "get sample_teams ''Iowa St.'' = Some (rated ''Iowa St.'' 3 ''B12'')"
  "get sample_teams ''Arizona'' = Some (rated ''Arizona'' 4 ''B12'')"
  "get sample_teams ''Kansas St.'' = Some (rated ''Kansas St.'' 5 ''B12'')"
  "get sample_teams ''TCU'' = Some (rated ''TCU'' 6 ''B12'')"
  "get sample_teams ''BYU'' = Some (rated ''BYU'' 7 ''B12'')"
  "get sample_teams ''Utah'' = Some (rated ''Utah'' 8 ''B12'')"
  "get sample_teams ''UCF'' = Some (rated ''UCF'' 9 ''B12'')"
  "get sample_teams ''Cincinnati'' = Some (rated ''Cincinnati'' 10 ''B12'')"
  "get sample_teams ''Duke'' = Some (rated ''Duke'' 11 ''ACC'')"
  "get sample_teams ''Gonzaga'' = None"
  by (simp_all add: get_def sample_teams_def sample_rows_def load_def rated_def strip_def lower_def
      lower_char_def is_space_def char_of_def bit_0)

lemma base_margin_rated: "base_margin (rated n r c) (rated n' r' c') = hca_of (rated n r c)"
  by (simp add: base_margin_def rated_def Let_def)

lemma hca_rated: "hca_of (rated n r ''B12'') = 4" "hca_of (rated n r ''ACC'') = 3.8"
  by (simp_all add: hca_of_def rated_def CONFERENCE_HCA_def)

section \<open>Selection\<close>

lemma sort_by_edge_sorted: "sorted_wrt (\<lambda>x y. edge y \<le> edge x) (sort_by_edge ps)"
proof -
  have "sorted (map (\<lambda>x. - edge x) (sort_by_edge ps))"
    unfolding sort_by_edge_def by (rule sorted_sort_key)
  then show ?thesis
    by (simp add: sorted_map)
qed

lemma sort_by_edge_stable:
  "filter (\<lambda>b. edge b = e) (sort_by_edge ps) = filter (\<lambda>b. edge b = e) ps"
  using sort_key_stable[of "\<lambda>x. - edge x" "- e" ps] by (simp add: sort_by_edge_def)

lemma selected_sorted:
  "sorted_wrt (\<lambda>x y. edge y \<le> edge x) (take n (filter Q (sort_by_edge ps)))"
proof -
  have "sorted_wrt (\<lambda>x y. edge y \<le> edge x) (filter Q (sort_by_edge ps))"
    by (rule sorted_wrt_filter[OF sort_by_edge_sorted])
  then show ?thesis
    by (rule sorted_wrt_take)
qed

lemma selected_stable:
  "prefix (filter (\<lambda>b. edge b = e) (take n (filter Q (sort_by_edge ps))))
          (filter (\<lambda>b. edge b = e) (filter Q ps))"
proof -
  have "prefix (filter (\<lambda>b. edge b = e) (take n (filter Q (sort_by_edge ps))))
               (filter (\<lambda>b. edge b = e) (filter Q (sort_by_edge ps)))"
    by (rule filter_mono_prefix[OF take_is_prefix])
  moreover have "filter (\<lambda>b. edge b = e) (filter Q (sort_by_edge ps))
                   = filter Q (filter (\<lambda>b. edge b = e) (sort_by_edge ps))"
    by (simp add: conj_commute)
  moreover have "filter (\<lambda>b. edge b = e) (filter Q ps) = filter Q (filter (\<lambda>b. edge b = e) ps)"
    by (simp add: conj_commute)
  ultimately show ?thesis
    by (simp only: sort_by_edge_stable)
qed

section \<open>Stake sizes\<close>

lemma py_round_nonneg: "- 1/2 \<le> x \<Longrightarrow> 0 \<le> py_round x"
proof -
  assume "- 1/2 \<le> x"
  then have "py_round (- 1/2) \<le> py_round x" by (rule py_round_mono)
  moreover have "py_round (- 1/2) = 0" by (simp add: py_round_def)
  ultimately show ?thesis by simp
qed

lemma round5_near: "\<bar>of_int (py_round (x / 5) * 5) - x\<bar> \<le> 5/2"
  using py_round_bounds[of "x / 5"] by (simp add: abs_if split: if_splits) 

lemma amt_v6_near:
  "\<bar>of_int (amt_v6 B k t) - min (B * k) (min (B * 0.03) (B * 0.1 - of_int t))\<bar> \<le> 5/2"
  unfolding amt_v6_def by (rule round5_near)

lemma stake_v7_near:
  "\<bar>of_int (stake_v7 B k) - min (B * k) (min (B * 0.03) (B * 0.10))\<bar> \<le> 5/2"
  unfolding stake_v7_def by (rule round5_near)

lemma amt_v6_dvd: "5 dvd amt_v6 B k t"
  by (simp add: amt_v6_def)

lemma stake_v7_dvd: "5 dvd stake_v7 B k"
  by (simp add: stake_v7_def)

lemma stake_v7_nonneg:
  assumes "0 \<le> B" and "0 \<le> k"
  shows "0 \<le> stake_v7 B k"
proof -
  have "0 \<le> B * k" using assms by (rule mult_nonneg_nonneg)
  then have "0 \<le> min (B * k) (min (B * 0.03) (B * 0.10))"
    using assms by simp
  then have "0 \<le> py_round (min (B * k) (min (B * 0.03) (B * 0.10)) / 5)"
    by (intro py_round_nonneg) simp
  then show ?thesis by (simp add: stake_v7_def)
qed

lemma amt_v6_le_cap: "of_int (amt_v6 B k t) \<le> B * 0.03 + 5/2"
proof -
  have "min (B * k) (min (B * 0.03) (B * 0.1 - of_int t)) \<le> B * 0.03"
    by (rule min.coboundedI2) (rule min.cobounded1)
  with amt_v6_near[of B k t] show ?thesis by linarith
qed

lemma stake_v7_le_cap: "of_int (stake_v7 B k) \<le> B * 0.03 + 5/2"
proof -
  have "min (B * k) (min (B * 0.03) (B * 0.10)) \<le> B * 0.03"
    by (rule min.coboundedI2) (rule min.cobounded1)
  with stake_v7_near[of B k] show ?thesis by linarith
qed

lemma amt_v6_le_remaining: "of_int (amt_v6 B k t) \<le> B * 0.1 - of_int t + 5/2"
proof -
  have "min (B * k) (min (B * 0.03) (B * 0.1 - of_int t)) \<le> B * 0.1 - of_int t"
    by (rule min.coboundedI2) (rule min.cobounded2)
  with amt_v6_near[of B k t] show ?thesis by linarith
qed

lemma place_v6_amounts:
  "(b, amt) \<in> set (place_v6 B t bs) \<Longrightarrow> 20 \<le> amt \<and> 5 dvd amt \<and> of_int amt \<le> B * 0.03 + 5/2"
proof (induction bs arbitrary: t)
  case Nil
  then show ?case by simp
next
  case (Cons x xs)
  then show ?case
    using amt_v6_le_cap[of B "kelly x" t]
    by (auto simp: Let_def amt_v6_dvd split: if_splits)
qed

lemma place_v6_total:
  "of_int t \<le> B * 0.1 + 5/2 \<Longrightarrow> of_int (t + total_v6 (place_v6 B t bs)) \<le> B * 0.1 + 5/2"
proof (induction bs arbitrary: t)
  case Nil
  then show ?case by (simp add: total_v6_def)
next
  case (Cons x xs)
  show ?case
  proof (cases "amt_v6 B (kelly x) t < 20")
    case True
    then show ?thesis using Cons by (simp add: Let_def)
  next
    case False
    have "of_int (t + amt_v6 B (kelly x) t) \<le> B * 0.1 + 5/2"
      using amt_v6_le_remaining[of B "kelly x" t] by simp
    from Cons.IH[OF this] False show ?thesis
      by (simp add: Let_def total_v6_def add.assoc)
  qed
qed

lemma kelly_v7_nonneg: "0 \<le> m \<Longrightarrow> 0 \<le> kelly_v7 c m"
  by (simp add: kelly_v7_def)

lemma line_move_mult: "fst (line_move lt hn an h bt fs) \<in> {1, 1.15, 0.85}"
  by (simp add: line_move_def Let_def split: option.splits)

lemma predict_v7_stake:
  assumes "predict_v7 F Q hn an m gh B = Some p"
  shows "\<exists>c mult. mult \<in> {1, 1.15, 0.85} \<and> stake p = stake_v7 B (kelly_v7 c mult)"
  using assms line_move_mult
  apply (simp add: predict_v7_def Let_def split: option.splits prod.splits)
  by (metis fst_conv pred_v7.select_convs(3))

section \<open>The pipelines on the sample data\<close>

lemma predict_v6_Some:
  assumes "get (loader P) hn = Some h" and "get (loader P) an = Some a"
    and "adjusted_v6 P h a = (hm, fs)"
  shows "predict_v6 F P hn an m = Some
     \<lparr>home = team h, away = team a, mkt = m,
      mdl = py_round_nd (- hm) 1, edge = py_round_nd \<bar>m + hm\<bar> 1,
      bet_team = fst (bet_side h a (- hm) m), bet_line = py_round_nd (snd (bet_side h a (- hm) m)) 1,
      cover = py_round_nd (cover_prob F h (fst (bet_side h a (- hm) m)) (- hm) m) 4,
      kelly = py_round_nd (kelly_v6 (cover_prob F h (fst (bet_side h a (- hm) m)) (- hm) m)) 4,
      winner = (if hm > 0 then team h else team a), margin = py_round_nd \<bar>hm\<bar> 1, factors = fs\<rparr>"
  using assms by (simp add: predict_v6_def Let_def split: prod.splits)

lemma predict_v7_Some:
  assumes "get (loader P) hn = Some h" and "get (loader P) an = Some a"
    and "adjusted_v7 P h a gh = (hm, fs)"
  shows "predict_v7 F P hn an m gh B = Some
     \<lparr>home = team h, away = team a, mkt = m,
      mdl = py_round_nd (- hm) 1, edge = py_round_nd \<bar>m + hm\<bar> 1,
      bet_team = fst (bet_side h a (- hm) m), bet_line = py_round_nd (snd (bet_side h a (- hm) m)) 1,
      cover = py_round_nd (cover_prob F h (fst (bet_side h a (- hm) m)) (- hm) m) 4,
      kelly = py_round_nd (kelly_v7 (cover_prob F h (fst (bet_side h a (- hm) m)) (- hm) m)
                (fst (line_move (line_tracker P) hn an h (fst (bet_side h a (- hm) m)) fs))) 4,
      winner = (if hm > 0 then team h else team a), margin = py_round_nd \<bar>hm\<bar> 1,
      factors = snd (line_move (line_tracker P) hn an h (fst (bet_side h a (- hm) m)) fs),
      home_rank = rank h, away_rank = rank a,
      stake = stake_v7 B (kelly_v7 (cover_prob F h (fst (bet_side h a (- hm) m)) (- hm) m)
                (fst (line_move (line_tracker P) hn an h (fst (bet_side h a (- hm) m)) fs)))\<rparr>"
  using assms by (simp add: predict_v7_def Let_def split: prod.splits)

lemma adjusted_v6_plain:
  "enhanced_inj P = None \<Longrightarrow> rest P = None \<Longrightarrow> adjusted_v6 P h a = elite_v6 h (base_margin h a, [])"
  by (simp add: adjusted_v6_def injuries_v6_def rest_adj_def split: prod.splits)

lemma adjusted_v7_plain:
  "enhanced_inj P = None \<Longrightarrow> rest P = None \<Longrightarrow> matchups P = None \<Longrightarrow> travel P = None \<Longrightarrow>
   adjusted_v7 P h a gh = elite_v7 h (base_margin h a, [])"
  by (simp add: adjusted_v7_def injuries_v7_def rest_adj_def matchup_adj_def travel_adj_def
      split: prod.splits)

lemma P6_plain: "enhanced_inj P6 = None" "rest P6 = None" "loader P6 = sample_teams"
  by (simp_all add: P6_def)

lemma P7_plain: "enhanced_inj P7 = None" "rest P7 = None" "matchups P7 = None" "travel P7 = None"
  "line_tracker P7 = None" "loader P7 = sample_teams"
  by (simp_all add: P7_def)

lemma py_round_nd_exact: "py_round_nd (of_int k / 10 ^ n) n = of_int k / 10 ^ n"
  by (simp add: py_round_nd_def)

lemma py_round_nd_mono:
  assumes "x \<le> y"
  shows "py_round_nd x n \<le> py_round_nd y n"
proof -
  have "x * 10 ^ n \<le> y * 10 ^ n"
    using assms by (intro mult_right_mono) simp_all
  then have "py_round (x * 10 ^ n) \<le> py_round (y * 10 ^ n)"
    by (rule py_round_mono)
  then show ?thesis
    unfolding py_round_nd_def by (intro divide_right_mono) simp_all
qed

lemma half_cover: "653/1000 < std_norm_cdf (1/2)" "std_norm_cdf (1/2) < 709/1000"
proof -
  have "1/2 + 7/20 * ((1/2) * (1 - (1/2) * (1/2) / 2)) < std_norm_cdf (1/2)"
    by (rule std_norm_cdf_lower) simp
  then show "653/1000 < std_norm_cdf (1/2)" by simp
  have "std_norm_cdf (1/2) < 1/2 + 5/12 * (1/2)"
    by (rule std_norm_cdf_upper) simp
  then show "std_norm_cdf (1/2) < 709/1000" by simp
qed

lemma sample_cover: "cover_prob norm_cdf (rated n r c) n (- 4) (3/2) = std_norm_cdf (1/2)"
proof -
  have "(- (3/2) - 4) / 11 = - (1/2 :: real)" by simp
  then have "norm_cdf (- (3/2)) 4 11 = 1 - std_norm_cdf (1/2)"
    unfolding norm_cdf_def by (simp only: std_norm_cdf_neg)
  then show ?thesis
    by (simp add: cover_prob_def SPREAD_STD_def rated_def)
qed

lemma kelly_sample: "0.04 < kelly_v7 (std_norm_cdf (1/2)) 1"
proof -
  have "kelly_v7 (653/1000) 1 < kelly_v7 (std_norm_cdf (1/2)) 1"
    by (rule kelly_v7_strict) (use half_cover in simp_all)
  moreover have "0.04 < kelly_v7 (653/1000) 1"
    by (simp add: kelly_v7_def MIN_COVER_def KELLY_FRAC_def)
  ultimately show ?thesis by linarith
qed

lemma even_game_v6:
  assumes "get sample_teams hn = Some (rated n r ''B12'')"
    and "get sample_teams an = Some (rated n' r' ''B12'')"
    and "map_of ELITE_VENUES n = None"
  shows "\<exists>p. predict_v6 norm_cdf P6 hn an (3/2) = Some p \<and> edge p = 11/2 \<and> 0.52 \<le> cover p \<and>
           0.03 \<le> kelly p \<and> bet_team p = n"
proof -
  have adj: "adjusted_v6 P6 (rated n r ''B12'') (rated n' r' ''B12'') = (4, [])"
    using assms(3)
    by (simp add: adjusted_v6_plain P6_plain elite_v6_def base_margin_rated hca_rated)
       (simp add: rated_def)
  have side: "bet_side (rated n r ''B12'') (rated n' r' ''B12'') (- 4) (3/2) = (n, 3/2)"
    by (simp add: bet_side_def rated_def)
  have e: "py_round_nd (11/2) (Suc 0) = 11/2"
    using py_round_nd_exact[of 55 1] by simp
  have "py_round_nd (653/1000) 4 \<le> py_round_nd (std_norm_cdf (1/2)) 4"
    by (rule py_round_nd_mono) (use half_cover in simp)
  moreover have "py_round_nd (653/1000) 4 = 653/1000"
    using py_round_nd_exact[of 6530 4] by simp
  ultimately have c: "0.52 \<le> py_round_nd (std_norm_cdf (1/2)) 4"
    by simp
  have "py_round_nd 0.04 4 \<le> py_round_nd (kelly_v6 (std_norm_cdf (1/2))) 4"
    by (rule py_round_nd_mono) (use kelly_sample in \<open>simp add: kelly_v6_is_v7\<close>)
  moreover have "py_round_nd 0.04 4 = 0.04"
    using py_round_nd_exact[of 400 4] by simp
  ultimately have k: "0.03 \<le> py_round_nd (kelly_v6 (std_norm_cdf (1/2))) 4"
    by simp
  show ?thesis
    using predict_v6_Some[of P6 hn _ an _ 4 "[]" norm_cdf "3/2", OF _ _ adj] assms(1,2) e c k
    by (simp add: P6_plain side sample_cover)
qed

lemma stake_v7_capped:
  assumes "0 \<le> B" and "0.03 \<le> k"
  shows "stake_v7 B k = py_round (B * 0.03 / 5) * 5"
proof -
  have "B * 0.03 \<le> B * k" using assms by (intro mult_left_mono)
  moreover have "B * 0.03 \<le> B * 0.10" using assms(1) by simp
  ultimately have "min (B * k) (min (B * 0.03) (B * 0.10)) = B * 0.03"
    by (simp add: min_def)
  then show ?thesis by (simp add: stake_v7_def)
qed

lemma amt_v6_capped:
  assumes "0 \<le> B" and "0.03 \<le> k"
  shows "amt_v6 B k t = py_round (min (B * 0.03) (B * 0.1 - of_int t) / 5) * 5"
proof -
  have "B * 0.03 \<le> B * k" using assms by (intro mult_left_mono)
  then have "min (B * k) (min (B * 0.03) (B * 0.1 - of_int t)) = min (B * 0.03) (B * 0.1 - of_int t)"
    by (simp add: min_def)
  then show ?thesis by (simp add: amt_v6_def)
qed

lemma even_game_v7:
  assumes "get sample_teams hn = Some (rated n r ''B12'')"
    and "get sample_teams an = Some (rated n' r' ''B12'')"
    and "map_of ELITE_VENUES n = None"
  shows "\<exists>p. predict_v7 norm_cdf P7 hn an (3/2) gh 10000 = Some p \<and> edge p = 11/2 \<and>
           0.52 \<le> cover p \<and> stake p = 300"
proof -
  have adj: "adjusted_v7 P7 (rated n r ''B12'') (rated n' r' ''B12'') gh = (4, [])"
    using assms(3)
    by (simp add: adjusted_v7_plain P7_plain elite_v7_def base_margin_rated hca_rated)
       (simp add: rated_def)
  have side: "bet_side (rated n r ''B12'') (rated n' r' ''B12'') (- 4) (3/2) = (n, 3/2)"
    by (simp add: bet_side_def rated_def)
  have e: "py_round_nd (11/2) (Suc 0) = 11/2"
    using py_round_nd_exact[of 55 1] by simp
  have "py_round_nd (653/1000) 4 \<le> py_round_nd (std_norm_cdf (1/2)) 4"
    by (rule py_round_nd_mono) (use half_cover in simp)
  moreover have "py_round_nd (653/1000) 4 = 653/1000"
    using py_round_nd_exact[of 6530 4] by simp
  ultimately have c: "0.52 \<le> py_round_nd (std_norm_cdf (1/2)) 4"
    by simp
  have "stake_v7 10000 (kelly_v7 (std_norm_cdf (1/2)) 1) = py_round (10000 * 0.03 / 5) * 5"
    by (rule stake_v7_capped) (use kelly_sample in simp_all)
  also have "\<dots> = 300"
    using py_round_of_int[of 60] by simp
  finally have s: "stake_v7 10000 (kelly_v7 (std_norm_cdf (1/2)) 1) = 300" .
  show ?thesis
    using predict_v7_Some[of P7 hn _ an _ gh 4 "[]" norm_cdf "3/2" 10000, OF _ _ adj] assms(1,2) e c s
    by (simp add: P7_plain side sample_cover line_move_def)
qed

lemma sort_by_edge_same:
  assumes "\<forall>p \<in> set ps. edge p = e"
  shows "sort_by_edge ps = ps"
proof -
  have "map (\<lambda>x. - edge x) ps = replicate (length ps) (- e)"
    using assms by (simp add: map_replicate_const[symmetric] cong: map_cong)
  then have "sorted (map (\<lambda>x. - edge x) ps)"
    by (simp add: sorted_replicate)
  then show ?thesis
    unfolding sort_by_edge_def by (rule sort_key_id_if_sorted)
qed

lemma bets_v6_all:
  assumes "\<forall>p \<in> set ps. edge p = 11/2 \<and> 0.52 \<le> cover p" and "length ps \<le> 5"
  shows "bets_v6 ps = ps"
proof -
  have "sort_by_edge ps = ps"
    by (rule sort_by_edge_same[of ps "11/2"]) (use assms in simp)
  moreover have "filter (\<lambda>x. edge x \<ge> MIN_EDGE \<and> cover x \<ge> MIN_COVER) ps = ps"
  proof (rule filter_True)
    show "\<forall>x \<in> set ps. edge x \<ge> MIN_EDGE \<and> cover x \<ge> MIN_COVER"
      using assms(1) by (auto simp: MIN_EDGE_def MIN_COVER_def)
  qed
  ultimately show ?thesis
    using assms(2) by (simp add: bets_v6_def MAX_BETS_def)
qed

lemma bets_v7_all:
  assumes "\<forall>p \<in> set ps. edge p = 11/2 \<and> 0.52 \<le> cover p \<and> stake p = 300" and "length ps \<le> 5"
  shows "bets_v7 ps = ps"
proof -
  have "sort_by_edge ps = ps"
    by (rule sort_by_edge_same[of ps "11/2"]) (use assms in simp)
  moreover have "filter (\<lambda>x. edge x \<ge> MIN_EDGE \<and> cover x \<ge> MIN_COVER \<and> stake x \<ge> 20) ps = ps"
  proof (rule filter_True)
    show "\<forall>x \<in> set ps. edge x \<ge> MIN_EDGE \<and> cover x \<ge> MIN_COVER \<and> stake x \<ge> 20"
      using assms(1) by (auto simp: MIN_EDGE_def MIN_COVER_def)
  qed
  ultimately show ?thesis
    using assms(2) by (simp add: bets_v7_def MAX_BETS_def)
qed

lemma sample_not_elite:
  "map_of ELITE_VENUES ''Houston'' = None" "map_of ELITE_VENUES ''Iowa St.'' = None"
  "map_of ELITE_VENUES ''Kansas St.'' = None" "map_of ELITE_VENUES ''BYU'' = None"
  "map_of ELITE_VENUES ''UCF'' = None" "map_of ELITE_VENUES ''Baylor'' = None"
  by (simp_all add: ELITE_VENUES_def)

lemma games5_v6:
  "\<exists>p1 p2 p3 p4 p5. predictions_v6 norm_cdf P6 games5 = [p1, p2, p3, p4, p5] \<and>
     (\<forall>p \<in> {p1, p2, p3, p4, p5}. edge p = 11/2 \<and> 0.52 \<le> cover p \<and> 0.03 \<le> kelly p)"
proof -
  obtain p1 where p1: "predict_v6 norm_cdf P6 ''Houston'' ''Baylor'' (3/2) = Some p1"
      "edge p1 = 11/2 \<and> 0.52 \<le> cover p1 \<and> 0.03 \<le> kelly p1"
    using even_game_v6[OF sample_get(1) sample_get(2) sample_not_elite(1)] by blast
  obtain p2 where p2: "predict_v6 norm_cdf P6 ''Iowa St.'' ''Arizona'' (3/2) = Some p2"
      "edge p2 = 11/2 \<and> 0.52 \<le> cover p2 \<and> 0.03 \<le> kelly p2"
    using even_game_v6[OF sample_get(3) sample_get(4) sample_not_elite(2)] by blast
  obtain p3 where p3: "predict_v6 norm_cdf P6 ''Kansas St.'' ''TCU'' (3/2) = Some p3"
      "edge p3 = 11/2 \<and> 0.52 \<le> cover p3 \<and> 0.03 \<le> kelly p3"
    using even_game_v6[OF sample_get(5) sample_get(6) sample_not_elite(3)] by blast
  obtain p4 where p4: "predict_v6 norm_cdf P6 ''BYU'' ''Utah'' (3/2) = Some p4"
      "edge p4 = 11/2 \<and> 0.52 \<le> cover p4 \<and> 0.03 \<le> kelly p4"
    using even_game_v6[OF sample_get(7) sample_get(8) sample_not_elite(4)] by blast
  obtain p5 where p5: "predict_v6 norm_cdf P6 ''UCF'' ''Cincinnati'' (3/2) = Some p5"
      "edge p5 = 11/2 \<and> 0.52 \<le> cover p5 \<and> 0.03 \<le> kelly p5"
    using even_game_v6[OF sample_get(9) sample_get(10) sample_not_elite(5)] by blast
  have "predictions_v6 norm_cdf P6 games5 = [p1, p2, p3, p4, p5]"
    using p1(1) p2(1) p3(1) p4(1) p5(1)
    by (simp add: predictions_v6_def games5_def fixture_def List.map_filter_simps)
  with p1(2) p2(2) p3(2) p4(2) p5(2) show ?thesis by blast
qed

lemma games5_v7:
  "\<exists>p1 p2 p3 p4 p5. predictions_v7 norm_cdf P7 10000 games5 = [p1, p2, p3, p4, p5] \<and>
     (\<forall>p \<in> {p1, p2, p3, p4, p5}. edge p = 11/2 \<and> 0.52 \<le> cover p \<and> stake p = 300)"
proof -
  obtain p1 where p1: "predict_v7 norm_cdf P7 ''Houston'' ''Baylor'' (3/2) 19 10000 = Some p1"
      "edge p1 = 11/2 \<and> 0.52 \<le> cover p1 \<and> stake p1 = 300"
    using even_game_v7[OF sample_get(1) sample_get(2) sample_not_elite(1)] by blast
  obtain p2 where p2: "predict_v7 norm_cdf P7 ''Iowa St.'' ''Arizona'' (3/2) 19 10000 = Some p2"
      "edge p2 = 11/2 \<and> 0.52 \<le> cover p2 \<and> stake p2 = 300"
    using even_game_v7[OF sample_get(3) sample_get(4) sample_not_elite(2)] by blast
  obtain p3 where p3: "predict_v7 norm_cdf P7 ''Kansas St.'' ''TCU'' (3/2) 19 10000 = Some p3"
      "edge p3 = 11/2 \<and> 0.52 \<le> cover p3 \<and> stake p3 = 300"
    using even_game_v7[OF sample_get(5) sample_get(6) sample_not_elite(3)] by blast
  obtain p4 where p4: "predict_v7 norm_cdf P7 ''BYU'' ''Utah'' (3/2) 19 10000 = Some p4"
      "edge p4 = 11/2 \<and> 0.52 \<le> cover p4 \<and> stake p4 = 300"
    using even_game_v7[OF sample_get(7) sample_get(8) sample_not_elite(4)] by blast
  obtain p5 where p5: "predict_v7 norm_cdf P7 ''UCF'' ''Cincinnati'' (3/2) 19 10000 = Some p5"
      "edge p5 = 11/2 \<and> 0.52 \<le> cover p5 \<and> stake p5 = 300"
    using even_game_v7[OF sample_get(9) sample_get(10) sample_not_elite(5)] by blast
  have "predictions_v7 norm_cdf P7 10000 games5 = [p1, p2, p3, p4, p5]"
    using p1(1) p2(1) p3(1) p4(1) p5(1)
    by (simp add: predictions_v7_def games5_def fixture_def List.map_filter_simps)
  with p1(2) p2(2) p3(2) p4(2) p5(2) show ?thesis by blast
qed

lemma map_filter_take:
  "\<forall>x \<in> set xs. f x \<noteq> None \<Longrightarrow> List.map_filter f (take n xs) = take n (List.map_filter f xs)"
proof (induction xs arbitrary: n)
  case Nil
  then show ?case by (simp add: List.map_filter_simps)
next
  case (Cons x xs)
  then show ?case
    by (cases n) (auto simp: List.map_filter_simps)
qed

lemma games4_v6: "predictions_v6 norm_cdf P6 games4 = take 4 (predictions_v6 norm_cdf P6 games5)"
  unfolding predictions_v6_def games4_def
  by (rule map_filter_take)
     (simp add: games5_def fixture_def predict_v6_None_iff P6_plain sample_get)

lemma place_v6_1990:
  assumes "0.03 \<le> kelly p1" "0.03 \<le> kelly p2" "0.03 \<le> kelly p3" "0.03 \<le> kelly p4"
  shows "place_v6 1990 0 [p1, p2, p3, p4] = [(p1, 60), (p2, 60), (p3, 60), (p4, 20)]"
  using assms by (simp add: amt_v6_capped py_round_def Let_def)

lemma place_v6_10000:
  assumes "0.03 \<le> kelly p1" "0.03 \<le> kelly p2" "0.03 \<le> kelly p3" "0.03 \<le> kelly p4"
    "0.03 \<le> kelly p5"
  shows "place_v6 10000 0 [p1, p2, p3, p4, p5] = [(p1, 300), (p2, 300), (p3, 300), (p4, 100)]"
  using assms by (simp add: amt_v6_capped py_round_def Let_def)

section \<open>Home court and venue\<close>

lemma elite_v6_eq: "elite_v6 h (x, fs) = (x + elite_bonus h, fs)"
  by (simp add: elite_v6_def elite_bonus_def split: option.splits)

lemma elite_v7_fst: "fst (elite_v7 h (x, fs)) = x + elite_bonus h"
  by (simp add: elite_v7_def elite_bonus_def split: option.splits)

lemma home_margin_v6_plain:
  "enhanced_inj P = None \<Longrightarrow> rest P = None \<Longrightarrow> home_margin_v6 P h a = base_margin h a + elite_bonus h"
  by (simp add: home_margin_v6_def adjusted_v6_plain elite_v6_eq)

lemma home_margin_v7_plain:
  "enhanced_inj P = None \<Longrightarrow> rest P = None \<Longrightarrow> matchups P = None \<Longrightarrow> travel P = None \<Longrightarrow>
   home_margin_v7 P h a gh = base_margin h a + elite_bonus h"
  by (simp add: home_margin_v7_def adjusted_v7_plain elite_v7_fst)

lemma base_margin_swap: "base_margin a h = hca_of h + hca_of a - base_margin h a"
  by (simp add: base_margin_def Let_def field_simps)

lemma hca_of_ge: "7/2 \<le> hca_of h"
  by (simp add: hca_of_def CONFERENCE_HCA_def)

lemma elite_bonus_ge: "0 \<le> elite_bonus h"
  by (simp add: elite_bonus_def ELITE_VENUES_def)

lemma home_court_total_ge: "7 \<le> home_court_total h a"
  using hca_of_ge[of h] hca_of_ge[of a] elite_bonus_ge[of h] elite_bonus_ge[of a]
  by (simp add: home_court_total_def)

lemma duke_v6: "adjusted_v6 P6 (rated ''Duke'' 11 ''ACC'') (rated n r c) = (5, [])"
  by (simp add: adjusted_v6_plain P6_plain elite_v6_def base_margin_rated hca_rated)
     (simp add: rated_def ELITE_VENUES_def)

lemma duke_v7: "adjusted_v7 P7 (rated ''Duke'' 11 ''ACC'') (rated n r c) gh = (5, [Elite_venue 1.2])"
  by (simp add: adjusted_v7_plain P7_plain elite_v7_def base_margin_rated hca_rated)
     (simp add: rated_def ELITE_VENUES_def)

lemma predict_v6_side_edge:
  assumes "get (loader P) hn = Some h" and "get (loader P) an = Some a"
    and "x = m + home_margin_v6 P h a"
  shows "\<exists>p. predict_v6 F P hn an m = Some p \<and> edge p = py_round_nd \<bar>x\<bar> 1 \<and>
           bet_team p = (if 0 < x then team h else team a)"
proof -
  obtain hm fs where adj: "adjusted_v6 P h a = (hm, fs)" by (cases "adjusted_v6 P h a")
  show ?thesis
    using predict_v6_Some[OF assms(1,2) adj, of F m]
    by (simp add: assms(3) home_margin_v6_def adj bet_side_def)
qed

lemma predict_v7_side_edge:
  assumes "get (loader P) hn = Some h" and "get (loader P) an = Some a"
    and "x = m + home_margin_v7 P h a gh"
  shows "\<exists>p. predict_v7 F P hn an m gh B = Some p \<and> edge p = py_round_nd \<bar>x\<bar> 1 \<and>
           bet_team p = (if 0 < x then team h else team a)"
proof -
  obtain hm fs where adj: "adjusted_v7 P h a gh = (hm, fs)" by (cases "adjusted_v7 P h a gh")
  show ?thesis
    using predict_v7_Some[OF assms(1,2) adj, of F m B]
    by (simp add: assms(3) home_margin_v7_def adj bet_side_def)
qed

lemma swapped_margin:
  "base_margin a h + elite_bonus a = home_court_total h a - (base_margin h a + elite_bonus h)"
  by (simp add: base_margin_swap[of a h] home_court_total_def)

lemma even_margin_v6: "home_margin_v6 P6 (rated ''Houston'' 1 ''B12'') (rated ''Baylor'' 2 ''B12'') = 4"
  "home_margin_v6 P6 (rated ''Baylor'' 2 ''B12'') (rated ''Houston'' 1 ''B12'') = 4"
  "home_margin_v6 P6 (rated ''Houston'' 1 ''B12'') (rated ''Houston'' 1 ''B12'') = 4"
  by (simp_all add: home_margin_v6_plain P6_plain base_margin_rated hca_rated elite_bonus_def)
     (simp_all add: rated_def ELITE_VENUES_def)

lemma even_margin_v7: "home_margin_v7 P7 (rated ''Houston'' 1 ''B12'') (rated ''Baylor'' 2 ''B12'') gh = 4"
  "home_margin_v7 P7 (rated ''Baylor'' 2 ''B12'') (rated ''Houston'' 1 ''B12'') gh = 4"
  "home_margin_v7 P7 (rated ''Houston'' 1 ''B12'') (rated ''Houston'' 1 ''B12'') gh = 4"
  by (simp_all add: home_margin_v7_plain P7_plain base_margin_rated hca_rated elite_bonus_def)
     (simp_all add: rated_def ELITE_VENUES_def)

lemma round1_small: "py_round_nd 2 (Suc 0) = 2" "py_round_nd 3 (Suc 0) = 3"
  "py_round_nd 5 (Suc 0) = 5" "py_round_nd 10 (Suc 0) = 10"
  using py_round_nd_exact[of 20 1] py_round_nd_exact[of 30 1] py_round_nd_exact[of 50 1]
    py_round_nd_exact[of 100 1]
  by simp_all

section \<open>Cover probability\<close>

lemma cover_prob_tail:
  assumes "team h \<noteq> team a"
  shows "cover_prob F h (fst (bet_side h a (- hm) m)) (- hm) m
           = gaussian_tail F (recommended_side (- hm) m) hm (- m)"
  using assms by (simp add: cover_prob_def bet_side_def gaussian_tail_def recommended_side_def)

lemma predict_v6_cover:
  assumes "get (loader P) hn = Some h" and "get (loader P) an = Some a" and "team h \<noteq> team a"
    and "hm = home_margin_v6 P h a"
  shows "\<exists>p. predict_v6 F P hn an m = Some p \<and>
           (bet_team p = team h \<longleftrightarrow> recommended_side (- hm) m = Home_side) \<and>
           (bet_team p = team a \<longleftrightarrow> recommended_side (- hm) m = Away_side) \<and>
           cover p = py_round_nd (gaussian_tail F (recommended_side (- hm) m) hm (- m)) 4"
proof -
  obtain fs where adj: "adjusted_v6 P h a = (hm, fs)"
    unfolding assms(4) home_margin_v6_def by (cases "adjusted_v6 P h a") simp
  show ?thesis
    using predict_v6_Some[OF assms(1,2) adj, of F m] assms(3)
    by (simp add: cover_prob_tail) (auto simp: bet_side_def recommended_side_def)
qed

lemma predict_v7_cover:
  assumes "get (loader P) hn = Some h" and "get (loader P) an = Some a" and "team h \<noteq> team a"
    and "hm = home_margin_v7 P h a gh"
  shows "\<exists>p. predict_v7 F P hn an m gh B = Some p \<and>
           (bet_team p = team h \<longleftrightarrow> recommended_side (- hm) m = Home_side) \<and>
           (bet_team p = team a \<longleftrightarrow> recommended_side (- hm) m = Away_side) \<and>
           cover p = py_round_nd (gaussian_tail F (recommended_side (- hm) m) hm (- m)) 4"
proof -
  obtain fs where adj: "adjusted_v7 P h a gh = (hm, fs)"
    unfolding assms(4) home_margin_v7_def by (cases "adjusted_v7 P h a gh") simp
  show ?thesis
    using predict_v7_Some[OF assms(1,2) adj, of F m B] assms(3)
    by (simp add: cover_prob_tail) (auto simp: bet_side_def recommended_side_def)
qed

lemma tiny_cover: "1/2 < std_norm_cdf (1/11000)" "std_norm_cdf (1/11000) < 50004/100000"
proof -
  show "1/2 < std_norm_cdf (1/11000)"
    using std_norm_cdf_strict_mono[of 0 "1/11000"] by (simp add: std_norm_cdf_0)
  have "std_norm_cdf (1/11000) < 1/2 + 5/12 * (1/11000)"
    by (rule std_norm_cdf_upper) simp
  then show "std_norm_cdf (1/11000) < 50004/100000" by simp
qed

lemma far_cover: "66/100 < std_norm_cdf (6/11)"
proof -
  have "1/2 + 7/20 * ((6/11) * (1 - (6/11) * (6/11) / 2)) < std_norm_cdf (6/11)"
    by (rule std_norm_cdf_lower) simp
  then show ?thesis by simp
qed

lemma tail_tiny: "gaussian_tail norm_cdf Home_side 4 (3999/1000) = std_norm_cdf (1/11000)"
proof -
  have "(3999/1000 - 4) / 11 = - (1/11000 :: real)" by simp
  then have "norm_cdf (3999/1000) 4 11 = 1 - std_norm_cdf (1/11000)"
    unfolding norm_cdf_def by (simp only: std_norm_cdf_neg)
  then show ?thesis
    by (simp add: gaussian_tail_def SPREAD_STD_def)
qed

lemma tail_far: "norm_cdf 10 4 SPREAD_STD = std_norm_cdf (6/11)"
  by (simp add: norm_cdf_def SPREAD_STD_def)

lemma round4_half:
  assumes "49996/100000 < x" and "x < 50004/100000"
  shows "py_round_nd x 4 = 1/2"
proof -
  have "py_round (x * 10 ^ 4) = 5000"
    by (rule py_round_eqI) (use assms in simp_all)
  then show ?thesis by (simp add: py_round_nd_def)
qed

lemma sample_teams_differ: "team (rated ''Houston'' 1 ''B12'') \<noteq> team (rated ''Baylor'' 2 ''B12'')"
  by (simp add: rated_def)

lemma same_team_v6:
  "predict_v6 norm_cdf P6 ''Houston'' ''Houston'' (- 10) \<noteq> None \<and>
   bet_line (the (predict_v6 norm_cdf P6 ''Houston'' ''Houston'' (- 10))) = 10 \<and>
   cover (the (predict_v6 norm_cdf P6 ''Houston'' ''Houston'' (- 10))) \<le> 34/100"
proof -
  let ?h = "rated ''Houston'' 1 ''B12''"
  have adj: "adjusted_v6 P6 ?h ?h = (4, [])"
    by (simp add: adjusted_v6_plain P6_plain elite_v6_def base_margin_rated hca_rated)
       (simp add: rated_def ELITE_VENUES_def)
  have side: "bet_side ?h ?h (- 4) (- 10) = (team ?h, 10)"
    by (simp add: bet_side_def)
  have c: "cover_prob norm_cdf ?h (team ?h) (- 4) (- 10) = 1 - std_norm_cdf (6/11)"
    by (simp add: cover_prob_def tail_far)
  have "py_round_nd (1 - std_norm_cdf (6/11)) 4 \<le> py_round_nd (34/100) 4"
    by (rule py_round_nd_mono) (use far_cover in simp)
  moreover have "py_round_nd (34/100) 4 = 34/100"
    using py_round_nd_exact[of 3400 4] by simp
  ultimately have r: "py_round_nd (1 - std_norm_cdf (6/11)) 4 \<le> 34/100" by simp
  have l: "py_round_nd 10 (Suc 0) = 10" by (rule round1_small)
  show ?thesis
    using predict_v6_Some[of P6 "''Houston''" ?h "''Houston''" ?h 4 "[]" norm_cdf "- 10", OF _ _ adj] r
    by (simp add: P6_plain sample_get side c l)
qed

lemma cdf_laws_uniform: "cdf_laws uniform_cdf"
  by (auto simp: cdf_laws_def uniform_cdf_def SPREAD_STD_def max_def min_def field_simps)

lemma tail_in_range:
  assumes "cdf_laws F"
  shows "1/2 \<le> gaussian_tail F (recommended_side (- hm) m) hm (- m) \<and>
         gaussian_tail F (recommended_side (- hm) m) hm (- m) \<le> 1"
proof (cases "- hm < m")
  case True
  then have "- m \<le> hm" by simp
  with assms have "F (- m) hm SPREAD_STD \<le> 1/2" "0 \<le> F (- m) hm SPREAD_STD"
    by (simp_all add: cdf_laws_def)
  with True show ?thesis
    by (simp add: gaussian_tail_def recommended_side_def)
next
  case False
  then have "hm \<le> - m" by simp
  with assms have "1/2 \<le> F (- m) hm SPREAD_STD" "F (- m) hm SPREAD_STD \<le> 1"
    by (simp_all add: cdf_laws_def)
  with False show ?thesis
    by (simp add: gaussian_tail_def recommended_side_def)
qed

lemma tail_at_zero_edge:
  assumes "cdf_laws F"
  shows "gaussian_tail F (recommended_side (- hm) (- hm)) hm (- (- hm)) = 1/2"
proof -
  from assms have "F hm hm SPREAD_STD \<le> 1/2" "1/2 \<le> F hm hm SPREAD_STD"
    by (simp_all add: cdf_laws_def)
  then show ?thesis
    by (simp add: gaussian_tail_def recommended_side_def)
qed

lemma round4_range:
  assumes "1/2 \<le> x" and "x \<le> 1"
  shows "1/2 \<le> py_round_nd x 4 \<and> py_round_nd x 4 \<le> 1"
proof -
  have "py_round_nd (1/2) 4 \<le> py_round_nd x 4" "py_round_nd x 4 \<le> py_round_nd 1 4"
    using assms by (intro py_round_nd_mono; simp)+
  moreover have "py_round_nd (1/2) 4 = 1/2" "py_round_nd 1 4 = 1"
    using py_round_nd_exact[of 5000 4] py_round_nd_exact[of 10000 4] by simp_all
  ultimately show ?thesis by simp
qed

lemma near_cover: "5012/10000 < std_norm_cdf (1/275)"
proof -
  have "1/2 + 7/20 * ((1/275) * (1 - (1/275) * (1/275) / 2)) < std_norm_cdf (1/275)"
    by (rule std_norm_cdf_lower) simp
  then show ?thesis by simp
qed

lemma tail_near: "gaussian_tail norm_cdf Home_side 4 (99/25) = std_norm_cdf (1/275)"
proof -
  have "(99/25 - 4) / 11 = - (1/275 :: real)" by simp
  then have "norm_cdf (99/25) 4 11 = 1 - std_norm_cdf (1/275)"
    unfolding norm_cdf_def by (simp only: std_norm_cdf_neg)
  then show ?thesis
    by (simp add: gaussian_tail_def SPREAD_STD_def)
qed

section \<open>The claims\<close>

subsection \<open>C1: the cover probability is a Gaussian tail\<close>

text \<open>
  C1. The claim: when both teams are found, the cover probability of the prediction equals
  the Gaussian tail with mean the predicted home margin and standard deviation 11.0 at the
  threshold (minus the market spread): upper tail when home is recommended, lower tail
  when away is. The predictor stores \<open>round(cover,4)\<close>, and it picks the tail by comparing
  the name of the recommended team with the home team's name. As amended: when both teams
  are found and are two different teams, the cover probability of the prediction is that
  tail (upper for home, lower for away, mean the unrounded home margin) rounded to four
  decimals, and the recommended team is the home team exactly when the model spread is
  below the market spread.
\<close>

theorem cover_is_rounded_gaussian_tail:
  "(get (loader P) hn = Some h \<and> get (loader P) an = Some a \<and> team h \<noteq> team a \<longrightarrow>
      (\<exists>p. predict_v6 F P hn an m = Some p \<and>
         (bet_team p = team h \<longleftrightarrow> recommended_side (- home_margin_v6 P h a) m = Home_side) \<and>
         (bet_team p = team a \<longleftrightarrow> recommended_side (- home_margin_v6 P h a) m = Away_side) \<and>
         cover p = py_round_nd
           (gaussian_tail F (recommended_side (- home_margin_v6 P h a) m)
              (home_margin_v6 P h a) (- m)) 4)) \<and>
   (get (loader Q) hn = Some h' \<and> get (loader Q) an = Some a' \<and> team h' \<noteq> team a' \<longrightarrow>
      (\<exists>q. predict_v7 F Q hn an m gh B = Some q \<and>
         (bet_team q = team h' \<longleftrightarrow> recommended_side (- home_margin_v7 Q h' a' gh) m = Home_side) \<and>
         (bet_team q = team a' \<longleftrightarrow> recommended_side (- home_margin_v7 Q h' a' gh) m = Away_side) \<and>
         cover q = py_round_nd
           (gaussian_tail F (recommended_side (- home_margin_v7 Q h' a' gh) m)
              (home_margin_v7 Q h' a' gh) (- m)) 4))"
  using predict_v6_cover[of P hn h an a "home_margin_v6 P h a" F m]
    predict_v7_cover[of Q hn h' an a' "home_margin_v7 Q h' a' gh" gh F m B]
  by blast

text \<open>
  Houston at home against Baylor at market spread 1.5, with the normal distribution
  function: the home margin is 4, home is recommended, and the cover probability is the
  upper tail at -1.5 rounded to four decimals.
\<close>

theorem cover_is_rounded_gaussian_tail_witness:
  "map_option bet_team (predict_v6 norm_cdf P6 ''Houston'' ''Baylor'' (3/2)) = Some ''Houston'' \<and>
   map_option cover (predict_v6 norm_cdf P6 ''Houston'' ''Baylor'' (3/2))
     = Some (py_round_nd (1 - norm_cdf (- (3/2)) 4 SPREAD_STD) 4) \<and>
   map_option bet_team (predict_v7 norm_cdf P7 ''Houston'' ''Baylor'' (3/2) 19 10000) = Some ''Houston'' \<and>
   map_option cover (predict_v7 norm_cdf P7 ''Houston'' ''Baylor'' (3/2) 19 10000)
     = Some (py_round_nd (1 - norm_cdf (- (3/2)) 4 SPREAD_STD) 4)"
proof -
  let ?h = "rated ''Houston'' 1 ''B12''" and ?a = "rated ''Baylor'' 2 ''B12''"
  have g: "get (loader P6) ''Houston'' = Some ?h" "get (loader P6) ''Baylor'' = Some ?a"
    "get (loader P7) ''Houston'' = Some ?h" "get (loader P7) ''Baylor'' = Some ?a"
    by (simp_all add: P6_plain P7_plain sample_get)
  have s: "recommended_side (- 4) (3/2) = Home_side"
    by (simp add: recommended_side_def)
  have t: "team ?h = ''Houston''" by (simp add: rated_def)
  from cover_is_rounded_gaussian_tail[of P6 "''Houston''" ?h "''Baylor''" ?a norm_cdf "3/2"
      P7 ?h ?a 19 10000] g sample_teams_differ
  show ?thesis
    by (auto simp: even_margin_v6 even_margin_v7 s t gaussian_tail_def)
qed

text \<open>
  Houston at home against Baylor at market spread -3.999: the home margin is 4, home is
  recommended, the upper tail at 3.999 is above 0.5 (about 0.500036), and the prediction
  carries 0.5. Houston against Houston at market spread -10: away is recommended (at +10),
  the lower tail at 10 is above 0.5, and the prediction carries a value below 0.5, the
  rounded upper tail.
\<close>

theorem cover_not_exact_tail_counterexample:
  "home_margin_v6 P6 (rated ''Houston'' 1 ''B12'') (rated ''Baylor'' 2 ''B12'') = 4 \<and>
   map_option bet_team (predict_v6 norm_cdf P6 ''Houston'' ''Baylor'' (- 3.999)) = Some ''Houston'' \<and>
   map_option cover (predict_v6 norm_cdf P6 ''Houston'' ''Baylor'' (- 3.999)) = Some (1/2) \<and>
   map_option cover (predict_v7 norm_cdf P7 ''Houston'' ''Baylor'' (- 3.999) 19 10000) = Some (1/2) \<and>
   gaussian_tail norm_cdf Home_side 4 3.999 \<noteq> 1/2 \<and>
   predict_v6 norm_cdf P6 ''Houston'' ''Houston'' (- 10) \<noteq> None \<and>
   bet_line (the (predict_v6 norm_cdf P6 ''Houston'' ''Houston'' (- 10))) = 10 \<and>
   cover (the (predict_v6 norm_cdf P6 ''Houston'' ''Houston'' (- 10))) < 1/2 \<and>
   1/2 < gaussian_tail norm_cdf Away_side 4 10"
proof -
  let ?h = "rated ''Houston'' 1 ''B12''" and ?a = "rated ''Baylor'' 2 ''B12''"
  have g: "get (loader P6) ''Houston'' = Some ?h" "get (loader P6) ''Baylor'' = Some ?a"
    "get (loader P7) ''Houston'' = Some ?h" "get (loader P7) ''Baylor'' = Some ?a"
    by (simp_all add: P6_plain P7_plain sample_get)
  have s: "recommended_side (- 4) (- (3999/1000)) = Home_side"
    by (simp add: recommended_side_def)
  have t: "team ?h = ''Houston''" by (simp add: rated_def)
  have half: "py_round_nd (std_norm_cdf (1/11000)) 4 = 1/2"
    by (rule round4_half) (use tiny_cover in simp_all)
  have v6: "map_option bet_team (predict_v6 norm_cdf P6 ''Houston'' ''Baylor'' (- (3999/1000))) = Some ''Houston''"
    "map_option cover (predict_v6 norm_cdf P6 ''Houston'' ''Baylor'' (- (3999/1000))) = Some (1/2)"
    using predict_v6_cover[OF g(1) g(2) sample_teams_differ even_margin_v6(1)[symmetric],
        of norm_cdf "- (3999/1000)"]
    by (auto simp: s t tail_tiny half)
  have v7: "map_option cover (predict_v7 norm_cdf P7 ''Houston'' ''Baylor'' (- (3999/1000)) 19 10000) = Some (1/2)"
    using predict_v7_cover[OF g(3) g(4) sample_teams_differ even_margin_v7(1)[of 19, symmetric],
        where F = norm_cdf and m = "- (3999/1000)" and B = 10000]
    by (auto simp: s t tail_tiny half)
  have ne: "gaussian_tail norm_cdf Home_side 4 (3999/1000) \<noteq> 1/2"
    using tiny_cover(1) by (simp add: tail_tiny)
  have away: "1/2 < gaussian_tail norm_cdf Away_side 4 10"
    using far_cover by (simp add: gaussian_tail_def tail_far)
  show ?thesis
    using v6 v7 ne away same_team_v6 by (simp add: even_margin_v6)
qed

subsection \<open>C2: the Kelly fraction\<close>

text \<open>
  C2. The claim: the Kelly fraction is 0 whenever the cover probability is at most 0.52, and
  strictly increasing in the cover probability above 0.52, for a fixed multiplier.
  The clamp \<open>max(0, ...)\<close> keeps the fraction at 0 up to the break-even probability
  \<open>1/1.909\<close>, which lies above 0.52. As amended: in both variants the Kelly fraction that
  the predictor computes (before it is rounded to four decimals for the prediction) is 0
  whenever the cover probability is at most \<open>1000/1909\<close> (so also whenever it is at most 0.52),
  and for every positive multiplier it is strictly increasing in the cover probability from
  \<open>1000/1909\<close> upwards.
\<close>

theorem kelly_floor_and_growth:
  "(p \<le> 0.52 \<longrightarrow> kelly_v6 p = 0 \<and> kelly_v7 p m = 0) \<and>
   (p \<le> 1000/1909 \<longrightarrow> kelly_v6 p = 0 \<and> kelly_v7 p m = 0) \<and>
   (1000/1909 \<le> p \<and> p < q \<longrightarrow> kelly_v6 p < kelly_v6 q) \<and>
   (1000/1909 \<le> p \<and> p < q \<and> 0 < m \<longrightarrow> kelly_v7 p m < kelly_v7 q m)"
proof -
  have "p \<le> 0.52 \<Longrightarrow> p \<le> 1000/1909" by simp
  then show ?thesis
    unfolding kelly_v6_is_v7
    using kelly_v7_below_break_even[of p] kelly_v7_strict[of p q] by auto
qed

text \<open>The amended claim at cover probabilities 0.6 and 0.7, multiplier 1.15.\<close>

theorem kelly_floor_and_growth_witness:
  "kelly_v6 0.5 = 0 \<and> kelly_v7 0.5 1.15 = 0 \<and>
   kelly_v6 0.6 < kelly_v6 0.7 \<and> kelly_v7 0.6 1.15 < kelly_v7 0.7 1.15"
  using kelly_floor_and_growth[of "0.5" "1.15" "0.7"] kelly_floor_and_growth[of "0.6" "1.15" "0.7"]
  by simp

text \<open>
  Between 0.52 and the break-even probability the fraction does not grow: at cover
  probabilities 0.521 and 0.523 it is 0 both times.
\<close>

theorem kelly_not_strict_counterexample:
  "(0.52 :: real) < 0.521 \<and> (0.521 :: real) < 0.523 \<and>
   \<not> kelly_v6 0.521 < kelly_v6 0.523 \<and> \<not> kelly_v7 0.521 1 < kelly_v7 0.523 1"
  by (simp add: kelly_v6_def kelly_v7_def MIN_COVER_def KELLY_FRAC_def)

subsection \<open>C3: aggregate exposure\<close>

text \<open>
  C3. The claim: in both variants the sum of the stakes placed never exceeds 0.10 of the
  bankroll. In v6 the amount is rounded to the nearest multiple of 5 after the remaining
  aggregate cap has been applied, so the last stake can overshoot the cap by up to 2.5.
  As amended: in the v6 variant, for a non-negative bankroll, the sum of the stakes
  placed never exceeds 0.10 of the bankroll plus 2.5, for every list of selected bets and
  so for every list of games. (v7 sizes every stake on its own, against the full aggregate
  cap; nothing is stated here about the sum of its stakes.)
\<close>

theorem v6_total_within_rounded_cap:
  assumes "0 \<le> B"
  shows "of_int (total_v6 (place_v6 B 0 bs)) \<le> B * 0.10 + 5/2 \<and>
         of_int (total_v6 (staked_v6 F P B games)) \<le> B * 0.10 + 5/2"
proof -
  have "of_int (0 + total_v6 (place_v6 B 0 xs)) \<le> B * 0.1 + 5/2" for xs
    by (rule place_v6_total) (use assms in simp)
  then show ?thesis
    by (simp add: staked_v6_def)
qed

text \<open>Bankroll 10000: the bets staked from the sample predictions and from the five sample games.\<close>

theorem v6_total_within_rounded_cap_witness:
  "total_v6 (place_v6 10000 0 (bets_v6 sample_preds)) = 720 \<and>
   real_of_int (total_v6 (place_v6 10000 0 (bets_v6 sample_preds))) \<le> 10000 * 0.10 + 5/2 \<and>
   real_of_int (total_v6 (staked_v6 norm_cdf P6 10000 games5)) \<le> 10000 * 0.10 + 5/2"
proof -
  have "total_v6 (place_v6 10000 0 (bets_v6 sample_preds)) = 720"
    by (simp add: bets_v6_def sort_by_edge_def sample_preds_def home_pick_def MAX_BETS_def
        MIN_EDGE_def MIN_COVER_def amt_v6_def py_round_def Let_def total_v6_def)
  then show ?thesis
    using v6_total_within_rounded_cap[of 10000 "bets_v6 sample_preds" norm_cdf P6 games5]
    by simp
qed

text \<open>
  v6 with bankroll 1990 and the first four sample games: the cap is 199, the per-bet cap
  59.7; the stakes are 60, 60, 60 and then \<open>round(19/5)*5 = 20\<close>, 200 in all.
  v7 with bankroll 10000 and the five sample games: every stake is 300, 1500 in all,
  against a cap of 1000.
\<close>

theorem total_above_cap_counterexample:
  "total_v6 (staked_v6 norm_cdf P6 1990 games4) = 200 \<and> (200 :: real) > 1990 * 0.10 \<and>
   total_v7 (main_v7 norm_cdf P7 10000 games5) = 1500 \<and> (1500 :: real) > 10000 * 0.10"
proof -
  obtain p1 p2 p3 p4 p5 where ps: "predictions_v6 norm_cdf P6 games5 = [p1, p2, p3, p4, p5]"
    and pp: "\<forall>p \<in> {p1, p2, p3, p4, p5}. edge p = 11/2 \<and> 0.52 \<le> cover p \<and> 0.03 \<le> kelly p"
    using games5_v6 by blast
  have four: "predictions_v6 norm_cdf P6 games4 = [p1, p2, p3, p4]"
    by (simp add: games4_v6 ps)
  have "bets_v6 [p1, p2, p3, p4] = [p1, p2, p3, p4]"
    by (rule bets_v6_all) (use pp in simp_all)
  moreover have "place_v6 1990 0 [p1, p2, p3, p4] = [(p1, 60), (p2, 60), (p3, 60), (p4, 20)]"
    by (rule place_v6_1990) (use pp in simp_all)
  ultimately have v6: "total_v6 (staked_v6 norm_cdf P6 1990 games4) = 200"
    by (simp add: staked_v6_def four total_v6_def)
  obtain q1 q2 q3 q4 q5 where qs: "predictions_v7 norm_cdf P7 10000 games5 = [q1, q2, q3, q4, q5]"
    and qq: "\<forall>p \<in> {q1, q2, q3, q4, q5}. edge p = 11/2 \<and> 0.52 \<le> cover p \<and> stake p = 300"
    using games5_v7 by blast
  have "bets_v7 [q1, q2, q3, q4, q5] = [q1, q2, q3, q4, q5]"
    by (rule bets_v7_all) (use qq in simp_all)
  then have v7: "total_v7 (main_v7 norm_cdf P7 10000 games5) = 1500"
    using qq by (simp add: main_v7_def qs total_v7_def)
  from v6 v7 show ?thesis by simp
qed

subsection \<open>C4: stake rounding and caps\<close>

text \<open>
  C4. The claim: every stake is the minimum of bankroll*kelly, the per-bet cap (0.03 of
  bankroll) and the remaining aggregate cap, rounded down to a multiple of 5, so that it
  is a non-negative multiple of 5 not above the lesser cap.
  The code rounds with \<open>round(x/5)*5\<close>, to the nearest multiple of 5. As amended: every
  stake is that minimum (v6: with the remaining aggregate cap, v7: with the full aggregate
  cap) rounded to the nearest multiple of 5, so it is a multiple of 5 within 2.5 of the
  minimum; every amount staked by v6 is at least 20 and at most the per-bet cap plus 2.5;
  every stake of a v7 prediction is, for a non-negative bankroll, non-negative and at most
  the per-bet cap plus 2.5.
\<close>

theorem stake_nearest_multiple_of_five:
  "5 dvd amt_v6 B k t \<and> 5 dvd stake_v7 B k \<and>
   \<bar>of_int (amt_v6 B k t) - min (B * k) (min (B * 0.03) (B * 0.1 - of_int t))\<bar> \<le> 5/2 \<and>
   \<bar>of_int (stake_v7 B k) - min (B * k) (min (B * 0.03) (B * 0.10))\<bar> \<le> 5/2 \<and>
   ((b, amt) \<in> set (place_v6 B 0 bs) \<longrightarrow>
      20 \<le> amt \<and> 5 dvd amt \<and> of_int amt \<le> B * 0.03 + 5/2) \<and>
   (predict_v7 F Q hn an m gh B = Some p \<and> 0 \<le> B \<longrightarrow>
      0 \<le> stake p \<and> 5 dvd stake p \<and> of_int (stake p) \<le> B * 0.03 + 5/2)"
proof -
  have "0 \<le> stake p \<and> 5 dvd stake p \<and> of_int (stake p) \<le> B * 0.03 + 5/2"
    if "predict_v7 F Q hn an m gh B = Some p" and "0 \<le> B"
  proof -
    from predict_v7_stake[OF that(1)] obtain c mult
      where mult: "mult \<in> {1, 1.15, 0.85}" and st: "stake p = stake_v7 B (kelly_v7 c mult)"
      by blast
    from mult have "0 \<le> mult" by auto
    then have "0 \<le> kelly_v7 c mult" by (rule kelly_v7_nonneg)
    with that(2) have "0 \<le> stake_v7 B (kelly_v7 c mult)"
      by (intro stake_v7_nonneg)
    then show ?thesis
      unfolding st using stake_v7_le_cap[of B "kelly_v7 c mult"] stake_v7_dvd[of B "kelly_v7 c mult"]
      by simp
  qed
  then show ?thesis
    using place_v6_amounts[of b amt B 0 bs] amt_v6_dvd[of B k t] stake_v7_dvd[of B k]
      amt_v6_near[of B k t] stake_v7_near[of B k]
    by blast
qed

text \<open>
  Bankroll 10000: a Kelly fraction of 0.0212 against a running total of 900, the bets
  staked from the sample predictions, and the stake of a v7 prediction.
\<close>

theorem stake_nearest_multiple_of_five_witness:
  "amt_v6 10000 0.0212 900 = 100 \<and> stake_v7 10000 0.0212 = 210 \<and>
   (sample_preds ! 1, 300) \<in> set (place_v6 10000 0 (bets_v6 sample_preds)) \<and>
   predict_v7 norm_cdf P7 ''Houston'' ''Baylor'' 1.5 19 10000 \<noteq> None \<and>
   0 \<le> stake (the (predict_v7 norm_cdf P7 ''Houston'' ''Baylor'' 1.5 19 10000)) \<and>
   5 dvd stake (the (predict_v7 norm_cdf P7 ''Houston'' ''Baylor'' 1.5 19 10000)) \<and>
   stake (the (predict_v7 norm_cdf P7 ''Houston'' ''Baylor'' 1.5 19 10000)) \<le> 302"
proof -
  let ?p = "the (predict_v7 norm_cdf P7 ''Houston'' ''Baylor'' 1.5 19 10000)"
  have some: "predict_v7 norm_cdf P7 ''Houston'' ''Baylor'' 1.5 19 10000 \<noteq> None"
    by (simp add: predict_v7_None_iff P7_def sample_get)
  then have p: "predict_v7 norm_cdf P7 ''Houston'' ''Baylor'' 1.5 19 10000 = Some ?p"
    by simp
  have placed: "(sample_preds ! 1, 300) \<in> set (place_v6 10000 0 (bets_v6 sample_preds))"
    by (simp add: bets_v6_def sort_by_edge_def sample_preds_def home_pick_def MAX_BETS_def
        MIN_EDGE_def MIN_COVER_def amt_v6_def py_round_def Let_def)
  have vals: "amt_v6 10000 0.0212 900 = 100" "stake_v7 10000 0.0212 = 210"
    by (simp_all add: amt_v6_def stake_v7_def py_round_def Let_def)
  from stake_nearest_multiple_of_five[of 10000 "0.0212" 900 "sample_preds ! 1" 300
      "bets_v6 sample_preds" norm_cdf P7 "''Houston''" "''Baylor''" "1.5" 19 ?p] p placed
  have "0 \<le> stake ?p" "5 dvd stake ?p" "real_of_int (stake ?p) \<le> 10000 * 0.03 + 5/2"
    by simp_all
  then have "0 \<le> stake ?p \<and> 5 dvd stake ?p \<and> stake ?p \<le> 302"
    by simp
  with some placed vals show ?thesis by simp
qed

text \<open>
  Bankroll 1100 and cover probability 0.7: the minimum is the per-bet cap, 33; rounded
  down it would be 30, but both variants stake 35, which is above the cap.
\<close>

theorem stake_above_cap_counterexample:
  "min (1100 * kelly_v7 0.7 1) (min (1100 * 0.03) (1100 * 0.10)) = 33 \<and>
   stake_v7 1100 (kelly_v7 0.7 1) = 35 \<and>
   amt_v6 1100 (py_round_nd (kelly_v6 0.7) 4) 0 = 35 \<and>
   \<lfloor>(33 :: real) / 5\<rfloor> * 5 = 30 \<and> (35 :: real) > 1100 * 0.03"
  by (simp add: stake_v7_def amt_v6_def kelly_v7_def kelly_v6_def py_round_nd_def py_round_def
      MIN_COVER_def KELLY_FRAC_def Let_def)

subsection \<open>C5: the bet list\<close>

text \<open>
  C5. The bet list has at most 5 entries; every entry has edge at least 2.0 and cover
  probability at least 0.52; the list is in descending order of edge; and among the
  predictions of any one edge value the bet list holds the qualifying ones in their input
  order, earliest first (the input order is that of the games, since predictions are
  produced game by game).
\<close>

theorem bet_list_bounds_and_order:
  "length (bets_v6 ps) \<le> 5 \<and> length (bets_v7 qs) \<le> 5 \<and>
   (\<forall>b \<in> set (bets_v6 ps). 2.0 \<le> edge b \<and> 0.52 \<le> cover b) \<and>
   (\<forall>b \<in> set (bets_v7 qs). 2.0 \<le> edge b \<and> 0.52 \<le> cover b) \<and>
   sorted_wrt (\<lambda>x y. edge y \<le> edge x) (bets_v6 ps) \<and>
   sorted_wrt (\<lambda>x y. edge y \<le> edge x) (bets_v7 qs) \<and>
   prefix (filter (\<lambda>b. edge b = e) (bets_v6 ps))
          (filter (\<lambda>b. edge b = e) (filter (\<lambda>x. 2.0 \<le> edge x \<and> 0.52 \<le> cover x) ps)) \<and>
   prefix (filter (\<lambda>b. edge b = e) (bets_v7 qs))
          (filter (\<lambda>b. edge b = e)
             (filter (\<lambda>x. 2.0 \<le> edge x \<and> 0.52 \<le> cover x \<and> 20 \<le> stake x) qs))"
proof -
  have "\<forall>b \<in> set (bets_v6 ps). 2.0 \<le> edge b \<and> 0.52 \<le> cover b"
    by (auto simp: bets_v6_def MIN_EDGE_def MIN_COVER_def dest!: in_set_takeD)
  moreover have "\<forall>b \<in> set (bets_v7 qs). 2.0 \<le> edge b \<and> 0.52 \<le> cover b"
    by (auto simp: bets_v7_def MIN_EDGE_def MIN_COVER_def dest!: in_set_takeD)
  moreover have "length (bets_v6 ps) \<le> 5" "length (bets_v7 qs) \<le> 5"
    by (simp_all add: bets_v6_def bets_v7_def MAX_BETS_def)
  moreover have "sorted_wrt (\<lambda>x y. edge y \<le> edge x) (bets_v6 ps)"
    "sorted_wrt (\<lambda>x y. edge y \<le> edge x) (bets_v7 qs)"
    unfolding bets_v6_def bets_v7_def by (rule selected_sorted)+
  moreover have "prefix (filter (\<lambda>b. edge b = e) (bets_v6 ps))
          (filter (\<lambda>b. edge b = e) (filter (\<lambda>x. 2.0 \<le> edge x \<and> 0.52 \<le> cover x) ps))"
    using selected_stable[of e MAX_BETS "\<lambda>x. edge x \<ge> MIN_EDGE \<and> cover x \<ge> MIN_COVER" ps]
    by (simp add: bets_v6_def MIN_EDGE_def MIN_COVER_def)
  moreover have "prefix (filter (\<lambda>b. edge b = e) (bets_v7 qs))
          (filter (\<lambda>b. edge b = e)
             (filter (\<lambda>x. 2.0 \<le> edge x \<and> 0.52 \<le> cover x \<and> 20 \<le> stake x) qs))"
    using selected_stable[of e MAX_BETS "\<lambda>x. edge x \<ge> MIN_EDGE \<and> cover x \<ge> MIN_COVER \<and> stake x \<ge> 20" qs]
    by (simp add: bets_v7_def MIN_EDGE_def MIN_COVER_def)
  ultimately show ?thesis by blast
qed

text \<open>
  Four predictions, with edges 2.5, 4.0, 2.5 and 1.0: the last one is filtered out, the
  second comes first, and the two of edge 2.5 keep their order.
\<close>

theorem bet_list_bounds_and_order_witness:
  "bets_v6 sample_preds = [sample_preds ! 1, sample_preds ! 0, sample_preds ! 2] \<and>
   bets_v7 sample_preds_v7 = [sample_preds_v7 ! 1, sample_preds_v7 ! 0, sample_preds_v7 ! 2] \<and>
   length (bets_v6 sample_preds) \<le> 5 \<and> length (bets_v7 sample_preds_v7) \<le> 5 \<and>
   prefix (filter (\<lambda>b. edge b = 2.5) (bets_v6 sample_preds))
          (filter (\<lambda>b. edge b = 2.5) (filter (\<lambda>x. 2.0 \<le> edge x \<and> 0.52 \<le> cover x) sample_preds))"
  using bet_list_bounds_and_order[of sample_preds sample_preds_v7 "2.5"]
  by (simp add: bets_v6_def bets_v7_def sort_by_edge_def sample_preds_def sample_preds_v7_def
      home_pick_def home_pick_v7_def MAX_BETS_def MIN_EDGE_def MIN_COVER_def)

subsection \<open>C6: unknown teams\<close>

text \<open>
  C6. If the home or the away name of a matchup is not found in the rating store (after
  lower-casing and trimming), \<open>predict\<close> returns \<open>None\<close>: no prediction is produced and
  nothing is raised. The run goes on as if the game had not been listed: the predictions,
  the staked bets of v6 and the bet list of v7 are those of the remaining games.
\<close>

theorem missing_team_skipped:
  "(get (loader P) hn = None \<or> get (loader P) an = None \<longrightarrow> predict_v6 F P hn an m = None) \<and>
   (get (loader Q) hn = None \<or> get (loader Q) an = None \<longrightarrow> predict_v7 F Q hn an m gh B = None) \<and>
   (get (loader P) (home_name g) = None \<or> get (loader P) (away_name g) = None \<longrightarrow>
      predictions_v6 F P (gs @ g # gs') = predictions_v6 F P (gs @ gs') \<and>
      staked_v6 F P B (gs @ g # gs') = staked_v6 F P B (gs @ gs')) \<and>
   (get (loader Q) (home_name g) = None \<or> get (loader Q) (away_name g) = None \<longrightarrow>
      predictions_v7 F Q B (gs @ g # gs') = predictions_v7 F Q B (gs @ gs') \<and>
      main_v7 F Q B (gs @ g # gs') = main_v7 F Q B (gs @ gs'))"
proof -
  have a: "predictions_v6 F P (gs @ g # gs') = predictions_v6 F P (gs @ gs')"
    if "get (loader P) (home_name g) = None \<or> get (loader P) (away_name g) = None"
    unfolding predictions_v6_def
    by (rule map_filter_skip) (use that in \<open>simp add: predict_v6_None_iff\<close>)
  have b: "predictions_v7 F Q B (gs @ g # gs') = predictions_v7 F Q B (gs @ gs')"
    if "get (loader Q) (home_name g) = None \<or> get (loader Q) (away_name g) = None"
    unfolding predictions_v7_def
    by (rule map_filter_skip) (use that in \<open>simp add: predict_v7_None_iff\<close>)
  show ?thesis
    using a b by (simp add: predict_v6_None_iff predict_v7_None_iff staked_v6_def main_v7_def)
qed

text \<open>
  A name is found whatever its case and surrounding blanks. A game with an unrated home
  team, listed after a game between two rated teams, changes nothing.
\<close>

theorem missing_team_skipped_witness:
  "get (loader P6) ''  DUKE '' = Some (rated ''Duke'' 11 ''ACC'') \<and>
   get (loader P6) ''Gonzaga'' = None \<and>
   predict_v6 norm_cdf P6 ''Gonzaga'' ''Duke'' (- 2) = None \<and>
   predict_v7 norm_cdf P7 ''Gonzaga'' ''Duke'' (- 2) 19 10000 = None \<and>
   staked_v6 norm_cdf P6 10000 ([fixture ''Houston'' ''Baylor'' 1.5] @ fixture ''Gonzaga'' ''Duke'' (- 2) # [])
     = staked_v6 norm_cdf P6 10000 ([fixture ''Houston'' ''Baylor'' 1.5] @ []) \<and>
   main_v7 norm_cdf P7 10000 ([fixture ''Houston'' ''Baylor'' 1.5] @ fixture ''Gonzaga'' ''Duke'' (- 2) # [])
     = main_v7 norm_cdf P7 10000 ([fixture ''Houston'' ''Baylor'' 1.5] @ [])"
proof -
  have g6: "get (loader P6) ''Gonzaga'' = None" and g7: "get (loader P7) ''Gonzaga'' = None"
    by (simp_all add: P6_def P7_def sample_get)
  have d: "get (loader P6) ''  DUKE '' = Some (rated ''Duke'' 11 ''ACC'')"
    by (simp add: P6_def get_def sample_teams_def sample_rows_def load_def rated_def strip_def
        lower_def lower_char_def is_space_def char_of_def bit_0)
  show ?thesis
    using g6 g7 d
      missing_team_skipped[of P6 "''Gonzaga''" "''Duke''" norm_cdf "- 2" P7 19 10000
        "fixture ''Gonzaga'' ''Duke'' (- 2)" "[fixture ''Houston'' ''Baylor'' 1.5]" "[]"]
    by (simp add: fixture_def)
qed

subsection \<open>C7: stakes below the actionable size\<close>

text \<open>
  C7. The claim: a prediction whose rounded stake is below 20 is excluded from the final
  bet list, neither counted among the selected bets nor staked. v7 filters on
  \<open>stake >= 20\<close> before truncating to five bets. v6 truncates first and only passes over
  the bet in the staking loop, so the bet still is one of the selected bets: with
  bankroll 10000 and the five sample games, five bets are selected (and reported as
  \<open>len(bets)\<close>), the first four are staked 300, 300, 300 and 100, and the fifth, whose
  amount is 0, is not staked.
\<close>

theorem v6_counts_unstaked_bet:
  "length (bets_v6 (predictions_v6 norm_cdf P6 games5)) = 5 \<and>
   map snd (staked_v6 norm_cdf P6 10000 games5) = [300, 300, 300, 100] \<and>
   amt_v6 10000 (kelly (bets_v6 (predictions_v6 norm_cdf P6 games5) ! 4)) 1000 = 0"
proof -
  obtain p1 p2 p3 p4 p5 where ps: "predictions_v6 norm_cdf P6 games5 = [p1, p2, p3, p4, p5]"
    and pp: "\<forall>p \<in> {p1, p2, p3, p4, p5}. edge p = 11/2 \<and> 0.52 \<le> cover p \<and> 0.03 \<le> kelly p"
    using games5_v6 by blast
  have b: "bets_v6 [p1, p2, p3, p4, p5] = [p1, p2, p3, p4, p5]"
    by (rule bets_v6_all) (use pp in simp_all)
  have pl: "place_v6 10000 0 [p1, p2, p3, p4, p5] = [(p1, 300), (p2, 300), (p3, 300), (p4, 100)]"
    by (rule place_v6_10000) (use pp in simp_all)
  have "0.03 \<le> kelly p5" using pp by simp
  then have last: "amt_v6 10000 (kelly p5) 1000 = 0"
    by (simp add: amt_v6_capped py_round_def Let_def)
  show ?thesis
    using b pl last by (simp add: ps staked_v6_def)
qed

subsection \<open>C8: swapping home and away\<close>

text \<open>
  C8. The claim: swapping home and away and negating the market spread gives the same
  recommended team and the same edge. The margin contains the home-court advantage and the
  venue bonus of whoever plays at home, so the swapped game is another game. As amended:
  with no optional providers, let \<open>d\<close> be the market spread minus the unrounded model spread
  of the original call and \<open>H\<close> the sum of the home-court advantages and venue bonuses of
  the two teams (at least 7). The original call recommends the home team iff \<open>d > 0\<close>, with
  edge \<open>round(|d|, 1)\<close>; the swapped call recommends the original away team iff \<open>d < H\<close>,
  with edge \<open>round(|H - d|, 1)\<close>. So for distinct teams the same team is recommended
  exactly when \<open>d \<le> 0\<close> or \<open>d \<ge> H\<close>.
\<close>

theorem swap_shifts_by_home_court:
  assumes "get (loader P) hn = Some h" and "get (loader P) an = Some a"
    and "enhanced_inj P = None" and "rest P = None"
    and "loader Q = loader P" and "enhanced_inj Q = None" and "rest Q = None"
    and "matchups Q = None" and "travel Q = None"
    and "d = m + (base_margin h a + elite_bonus h)" and "H = home_court_total h a"
  shows "7 \<le> H \<and>
    (\<exists>p p'. predict_v6 F P hn an m = Some p \<and> predict_v6 F P an hn (- m) = Some p' \<and>
       edge p = py_round_nd \<bar>d\<bar> 1 \<and> edge p' = py_round_nd \<bar>H - d\<bar> 1 \<and>
       bet_team p = (if 0 < d then team h else team a) \<and>
       bet_team p' = (if d < H then team a else team h) \<and>
       (team h \<noteq> team a \<longrightarrow> (bet_team p = bet_team p' \<longleftrightarrow> d \<le> 0 \<or> H \<le> d))) \<and>
    (\<exists>q q'. predict_v7 F Q hn an m gh B = Some q \<and> predict_v7 F Q an hn (- m) gh B = Some q' \<and>
       edge q = py_round_nd \<bar>d\<bar> 1 \<and> edge q' = py_round_nd \<bar>H - d\<bar> 1 \<and>
       bet_team q = (if 0 < d then team h else team a) \<and>
       bet_team q' = (if d < H then team a else team h) \<and>
       (team h \<noteq> team a \<longrightarrow> (bet_team q = bet_team q' \<longleftrightarrow> d \<le> 0 \<or> H \<le> d)))"
proof -
  have H: "7 \<le> H" unfolding assms(11) by (rule home_court_total_ge)
  have d': "- m + (base_margin a h + elite_bonus a) = H - d"
    using swapped_margin[of a h] unfolding assms(10,11) by linarith
  have Qh: "get (loader Q) hn = Some h" and Qa: "get (loader Q) an = Some a"
    using assms(1,2,5) by simp_all
  have x6: "d = m + home_margin_v6 P h a"
    unfolding home_margin_v6_plain[OF assms(3,4)] by (rule assms(10))
  have y6: "H - d = - m + home_margin_v6 P a h"
    unfolding home_margin_v6_plain[OF assms(3,4)] by (rule d'[symmetric])
  have x7: "d = m + home_margin_v7 Q h a gh"
    unfolding home_margin_v7_plain[OF assms(6,7,8,9)] by (rule assms(10))
  have y7: "H - d = - m + home_margin_v7 Q a h gh"
    unfolding home_margin_v7_plain[OF assms(6,7,8,9)] by (rule d'[symmetric])
  have pos: "0 < H - d \<longleftrightarrow> d < H" by simp
  obtain p where p: "predict_v6 F P hn an m = Some p" "edge p = py_round_nd \<bar>d\<bar> 1"
      "bet_team p = (if 0 < d then team h else team a)"
    using predict_v6_side_edge[OF assms(1,2) x6, of F] by blast
  obtain p' where p': "predict_v6 F P an hn (- m) = Some p'" "edge p' = py_round_nd \<bar>H - d\<bar> 1"
      "bet_team p' = (if d < H then team a else team h)"
    using predict_v6_side_edge[OF assms(2,1) y6, of F] unfolding pos by blast
  obtain q where q: "predict_v7 F Q hn an m gh B = Some q" "edge q = py_round_nd \<bar>d\<bar> 1"
      "bet_team q = (if 0 < d then team h else team a)"
    using predict_v7_side_edge[OF Qh Qa x7, of F B] by blast
  obtain q' where q': "predict_v7 F Q an hn (- m) gh B = Some q'" "edge q' = py_round_nd \<bar>H - d\<bar> 1"
      "bet_team q' = (if d < H then team a else team h)"
    using predict_v7_side_edge[OF Qa Qh y7, of F B] unfolding pos by blast
  have same: "team h \<noteq> team a \<longrightarrow>
      ((if 0 < d then team h else team a) = (if d < H then team a else team h) \<longleftrightarrow> d \<le> 0 \<or> H \<le> d)"
    using H by auto
  show ?thesis
    using H p p' q q' same by auto
qed

text \<open>
  Houston at home against Baylor at market spread -6: \<open>d = -2\<close> and \<open>H = 8\<close>. Both calls
  recommend Baylor; the edge is 2.0 in the original call and 10.0 in the swapped one.
\<close>

theorem swap_shifts_by_home_court_witness:
  "map_option bet_team (predict_v6 norm_cdf P6 ''Houston'' ''Baylor'' (- 6)) = Some ''Baylor'' \<and>
   map_option bet_team (predict_v6 norm_cdf P6 ''Baylor'' ''Houston'' 6) = Some ''Baylor'' \<and>
   map_option edge (predict_v6 norm_cdf P6 ''Houston'' ''Baylor'' (- 6)) = Some 2 \<and>
   map_option edge (predict_v6 norm_cdf P6 ''Baylor'' ''Houston'' 6) = Some 10 \<and>
   map_option bet_team (predict_v7 norm_cdf P7 ''Houston'' ''Baylor'' (- 6) 19 10000) = Some ''Baylor'' \<and>
   map_option bet_team (predict_v7 norm_cdf P7 ''Baylor'' ''Houston'' 6 19 10000) = Some ''Baylor'' \<and>
   map_option edge (predict_v7 norm_cdf P7 ''Houston'' ''Baylor'' (- 6) 19 10000) = Some 2 \<and>
   map_option edge (predict_v7 norm_cdf P7 ''Baylor'' ''Houston'' 6 19 10000) = Some 10"
proof -
  let ?h = "rated ''Houston'' 1 ''B12''" and ?a = "rated ''Baylor'' 2 ''B12''"
  have d: "(- 2 :: real) = - 6 + (base_margin ?h ?a + elite_bonus ?h)"
    by (simp add: base_margin_rated hca_rated elite_bonus_def) (simp add: rated_def ELITE_VENUES_def)
  have H: "(8 :: real) = home_court_total ?h ?a"
    by (simp add: home_court_total_def hca_rated elite_bonus_def) (simp add: rated_def ELITE_VENUES_def)
  have t: "team ?h = ''Houston''" "team ?a = ''Baylor''"
    by (simp_all add: rated_def)
  from swap_shifts_by_home_court[of P6 "''Houston''" ?h "''Baylor''" ?a P7 "- 2" "- 6" 8
      norm_cdf 19 10000, OF _ _ _ _ _ _ _ _ _ d H]
  show ?thesis
    by (auto simp: P6_plain P7_plain sample_get t round1_small)
qed

text \<open>
  Houston at home against Baylor at market spread -1, and Baylor at home against Houston
  at +1: the first call recommends Houston with edge 3.0, the second Baylor with edge 5.0.
\<close>

theorem swap_changes_pick_counterexample:
  "map_option bet_team (predict_v6 norm_cdf P6 ''Houston'' ''Baylor'' (- 1)) = Some ''Houston'' \<and>
   map_option bet_team (predict_v6 norm_cdf P6 ''Baylor'' ''Houston'' 1) = Some ''Baylor'' \<and>
   map_option edge (predict_v6 norm_cdf P6 ''Houston'' ''Baylor'' (- 1)) = Some 3 \<and>
   map_option edge (predict_v6 norm_cdf P6 ''Baylor'' ''Houston'' 1) = Some 5 \<and>
   map_option bet_team (predict_v7 norm_cdf P7 ''Houston'' ''Baylor'' (- 1) 19 10000) = Some ''Houston'' \<and>
   map_option bet_team (predict_v7 norm_cdf P7 ''Baylor'' ''Houston'' 1 19 10000) = Some ''Baylor'' \<and>
   map_option edge (predict_v7 norm_cdf P7 ''Houston'' ''Baylor'' (- 1) 19 10000) = Some 3 \<and>
   map_option edge (predict_v7 norm_cdf P7 ''Baylor'' ''Houston'' 1 19 10000) = Some 5"
proof -
  let ?h = "rated ''Houston'' 1 ''B12''" and ?a = "rated ''Baylor'' 2 ''B12''"
  have t: "team ?h = ''Houston''" "team ?a = ''Baylor''"
    by (simp_all add: rated_def)
  have g6: "get (loader P6) ''Houston'' = Some ?h" "get (loader P6) ''Baylor'' = Some ?a"
    and g7: "get (loader P7) ''Houston'' = Some ?h" "get (loader P7) ''Baylor'' = Some ?a"
    by (simp_all add: P6_plain P7_plain sample_get)
  have a: "(3 :: real) = - 1 + home_margin_v6 P6 ?h ?a" "(5 :: real) = 1 + home_margin_v6 P6 ?a ?h"
    "(3 :: real) = - 1 + home_margin_v7 P7 ?h ?a 19" "(5 :: real) = 1 + home_margin_v7 P7 ?a ?h 19"
    by (simp_all add: even_margin_v6 even_margin_v7)
  show ?thesis
    using predict_v6_side_edge[OF g6(1) g6(2) a(1), of norm_cdf]
      predict_v6_side_edge[OF g6(2) g6(1) a(2), of norm_cdf]
      predict_v7_side_edge[OF g7(1) g7(2) a(3), of norm_cdf 10000]
      predict_v7_side_edge[OF g7(2) g7(1) a(4), of norm_cdf 10000]
    by (auto simp: t round1_small)
qed

subsection \<open>C9: the elite-venue bonus\<close>

text \<open>
  C9. The claim: when the home team is in the elite-venues table, the bonus is added to
  the margin and a factor recording it is appended to the factor list; otherwise neither.
  v7 does both. v6 adds the bonus but appends nothing: for Duke at home against Baylor
  (baseline margin 3.8, bonus 1.2) both variants report the model spread -5.0, v7 with the
  factor "Elite venue +1.2" and v6 with an empty factor list.
\<close>

theorem v6_elite_venue_without_factor:
  "base_margin (rated ''Duke'' 11 ''ACC'') (rated ''Baylor'' 2 ''B12'') = 3.8 \<and>
   map_option mdl (predict_v6 norm_cdf P6 ''Duke'' ''Baylor'' (- 3)) = Some (- 5) \<and>
   map_option factors (predict_v6 norm_cdf P6 ''Duke'' ''Baylor'' (- 3)) = Some [] \<and>
   map_option mdl (predict_v7 norm_cdf P7 ''Duke'' ''Baylor'' (- 3) 19 10000) = Some (- 5) \<and>
   map_option factors (predict_v7 norm_cdf P7 ''Duke'' ''Baylor'' (- 3) 19 10000)
     = Some [Elite_venue 1.2]"
proof -
  have r: "py_round_nd (- 5) (Suc 0) = - 5"
    using py_round_nd_exact[of "- 50" 1] by simp
  have "map_option mdl (predict_v6 norm_cdf P6 ''Duke'' ''Baylor'' (- 3)) = Some (- 5)"
    "map_option factors (predict_v6 norm_cdf P6 ''Duke'' ''Baylor'' (- 3)) = Some []"
    using predict_v6_Some[of P6 "''Duke''" _ "''Baylor''" _ 5 "[]" norm_cdf "- 3", OF _ _ duke_v6]
    by (simp_all add: P6_plain sample_get r)
  moreover have "map_option mdl (predict_v7 norm_cdf P7 ''Duke'' ''Baylor'' (- 3) 19 10000) = Some (- 5)"
    "map_option factors (predict_v7 norm_cdf P7 ''Duke'' ''Baylor'' (- 3) 19 10000)
      = Some [Elite_venue 1.2]"
    using predict_v7_Some[of P7 "''Duke''" _ "''Baylor''" _ 19 5 "[Elite_venue 1.2]" norm_cdf "- 3" 10000,
        OF _ _ duke_v7]
    by (simp_all add: P7_plain sample_get r line_move_def)
  moreover have "base_margin (rated ''Duke'' 11 ''ACC'') (rated ''Baylor'' 2 ''B12'') = 3.8"
    by (simp add: base_margin_rated hca_rated)
  ultimately show ?thesis by blast
qed

subsection \<open>C10: range of the cover probability\<close>

text \<open>
  C10. The claim: the cover probability of every prediction lies in [0.5, 1], and it is
  0.5 exactly when the edge is 0. The value is rounded to four decimals (and the edge to
  one), and the tail is picked by comparing team names. As amended: for every distribution
  function whose values are probabilities and whose mean is its median, when both teams
  are found and are two different teams, the cover probability of the prediction lies in
  [0.5, 1], and it is 0.5 when the market spread equals the unrounded model spread.
\<close>

theorem cover_at_least_half:
  "(cdf_laws F \<and> get (loader P) hn = Some h \<and> get (loader P) an = Some a \<and> team h \<noteq> team a \<longrightarrow>
      (\<exists>p. predict_v6 F P hn an m = Some p \<and> 1/2 \<le> cover p \<and> cover p \<le> 1 \<and>
           (m = - home_margin_v6 P h a \<longrightarrow> cover p = 1/2))) \<and>
   (cdf_laws F \<and> get (loader Q) hn = Some h' \<and> get (loader Q) an = Some a' \<and> team h' \<noteq> team a' \<longrightarrow>
      (\<exists>q. predict_v7 F Q hn an m gh B = Some q \<and> 1/2 \<le> cover q \<and> cover q \<le> 1 \<and>
           (m = - home_margin_v7 Q h' a' gh \<longrightarrow> cover q = 1/2)))"
proof -
  have r: "1/2 \<le> py_round_nd (gaussian_tail F (recommended_side (- x) m) x (- m)) 4 \<and>
           py_round_nd (gaussian_tail F (recommended_side (- x) m) x (- m)) 4 \<le> 1 \<and>
           (m = - x \<longrightarrow> py_round_nd (gaussian_tail F (recommended_side (- x) m) x (- m)) 4 = 1/2)"
    if "cdf_laws F" for x
  proof -
    have half: "py_round_nd (1/2) 4 = 1/2"
      using py_round_nd_exact[of 5000 4] by simp
    have range: "1/2 \<le> py_round_nd (gaussian_tail F (recommended_side (- x) m) x (- m)) 4 \<and>
           py_round_nd (gaussian_tail F (recommended_side (- x) m) x (- m)) 4 \<le> 1"
      using tail_in_range[OF that, of x m] by (intro round4_range) simp_all
    have "py_round_nd (gaussian_tail F (recommended_side (- x) m) x (- m)) 4 = 1/2" if "m = - x"
      unfolding that tail_at_zero_edge[OF \<open>cdf_laws F\<close>] by (rule half)
    with range show ?thesis by blast
  qed
  show ?thesis
    using predict_v6_cover[of P hn h an a "home_margin_v6 P h a" F m]
      predict_v7_cover[of Q hn h' an a' "home_margin_v7 Q h' a' gh" gh F m B] r
    by metis
qed

text \<open>
  Houston at home against Baylor, with the uniform distribution function: at market
  spread 1.5 the cover probability lies in [0.5, 1], and at market spread -4, the model
  spread, it is 0.5.
\<close>

theorem cover_at_least_half_witness:
  "cdf_laws uniform_cdf \<and>
   predict_v6 uniform_cdf P6 ''Houston'' ''Baylor'' (3/2) \<noteq> None \<and>
   1/2 \<le> cover (the (predict_v6 uniform_cdf P6 ''Houston'' ''Baylor'' (3/2))) \<and>
   cover (the (predict_v6 uniform_cdf P6 ''Houston'' ''Baylor'' (3/2))) \<le> 1 \<and>
   map_option cover (predict_v6 uniform_cdf P6 ''Houston'' ''Baylor'' (- 4)) = Some (1/2) \<and>
   predict_v7 uniform_cdf P7 ''Houston'' ''Baylor'' (3/2) 19 10000 \<noteq> None \<and>
   1/2 \<le> cover (the (predict_v7 uniform_cdf P7 ''Houston'' ''Baylor'' (3/2) 19 10000)) \<and>
   cover (the (predict_v7 uniform_cdf P7 ''Houston'' ''Baylor'' (3/2) 19 10000)) \<le> 1 \<and>
   map_option cover (predict_v7 uniform_cdf P7 ''Houston'' ''Baylor'' (- 4) 19 10000) = Some (1/2)"
proof -
  let ?h = "rated ''Houston'' 1 ''B12''" and ?a = "rated ''Baylor'' 2 ''B12''"
  have g: "get (loader P6) ''Houston'' = Some ?h" "get (loader P6) ''Baylor'' = Some ?a"
    "get (loader P7) ''Houston'' = Some ?h" "get (loader P7) ''Baylor'' = Some ?a"
    by (simp_all add: P6_plain P7_plain sample_get)
  from cover_at_least_half[of uniform_cdf P6 "''Houston''" ?h "''Baylor''" ?a "3/2" P7 ?h ?a 19 10000]
    cover_at_least_half[of uniform_cdf P6 "''Houston''" ?h "''Baylor''" ?a "- 4" P7 ?h ?a 19 10000]
    cdf_laws_uniform g sample_teams_differ
  show ?thesis
    by (auto simp: even_margin_v6 even_margin_v7)
qed

text \<open>
  Houston at home against Baylor (home margin 4). At market spread -3.96 the prediction
  has edge \<open>round(0.04, 1) = 0.0\<close> and a cover probability above 0.5 (0.5015). At market
  spread -3.999 the edge before rounding is 0.001, not 0, and the cover probability is
  0.5. Houston against Houston at market spread -10: the cover probability is below 0.5.
\<close>

theorem cover_half_not_iff_zero_edge_counterexample:
  "map_option edge (predict_v6 norm_cdf P6 ''Houston'' ''Baylor'' (- 3.96)) = Some 0 \<and>
   1/2 < cover (the (predict_v6 norm_cdf P6 ''Houston'' ''Baylor'' (- 3.96))) \<and>
   \<bar>- 3.999 + home_margin_v6 P6 (rated ''Houston'' 1 ''B12'') (rated ''Baylor'' 2 ''B12'')\<bar> = 0.001 \<and>
   map_option cover (predict_v6 norm_cdf P6 ''Houston'' ''Baylor'' (- 3.999)) = Some (1/2) \<and>
   predict_v6 norm_cdf P6 ''Houston'' ''Houston'' (- 10) \<noteq> None \<and>
   cover (the (predict_v6 norm_cdf P6 ''Houston'' ''Houston'' (- 10))) < 1/2"
proof -
  let ?h = "rated ''Houston'' 1 ''B12''" and ?a = "rated ''Baylor'' 2 ''B12''"
  have g: "get (loader P6) ''Houston'' = Some ?h" "get (loader P6) ''Baylor'' = Some ?a"
    by (simp_all add: P6_plain sample_get)
  have s: "recommended_side (- 4) (- (99/25)) = Home_side"
    "recommended_side (- 4) (- (3999/1000)) = Home_side"
    by (simp_all add: recommended_side_def)
  have "py_round_nd (5012/10000) 4 \<le> py_round_nd (std_norm_cdf (1/275)) 4"
    by (rule py_round_nd_mono) (use near_cover in simp)
  moreover have "py_round_nd (5012/10000) 4 = 5012/10000"
    using py_round_nd_exact[of 5012 4] by simp
  ultimately have above: "1/2 < py_round_nd (std_norm_cdf (1/275)) 4" by simp
  have e0: "py_round_nd (1/25) (Suc 0) = 0"
    by (simp add: py_round_nd_def py_round_def)
  have x: "(1/25 :: real) = - (99/25) + home_margin_v6 P6 ?h ?a"
    by (simp add: even_margin_v6)
  have edge0: "map_option edge (predict_v6 norm_cdf P6 ''Houston'' ''Baylor'' (- (99/25))) = Some 0"
    using predict_v6_side_edge[OF g x, of norm_cdf] by (auto simp: e0)
  have cov: "1/2 < cover (the (predict_v6 norm_cdf P6 ''Houston'' ''Baylor'' (- (99/25))))"
    using predict_v6_cover[OF g sample_teams_differ even_margin_v6(1)[symmetric], of norm_cdf "- (99/25)"]
      above
    by (auto simp: s tail_near)
  have half: "py_round_nd (std_norm_cdf (1/11000)) 4 = 1/2"
    by (rule round4_half) (use tiny_cover in simp_all)
  have c2: "map_option cover (predict_v6 norm_cdf P6 ''Houston'' ''Baylor'' (- (3999/1000))) = Some (1/2)"
    using predict_v6_cover[OF g sample_teams_differ even_margin_v6(1)[symmetric],
        of norm_cdf "- (3999/1000)"]
    by (auto simp: s tail_tiny half)
  show ?thesis
    using edge0 cov c2 same_team_v6 by (simp add: even_margin_v6)
qed

end
